theory Spec2Isabelle
  imports Complex_Main "HOL-Library.Word"
begin

section \<open>JavaScript strings\<close>

text \<open>
  A JavaScript string is a sequence of UTF-16 code units. Text of the program that is
  plain ASCII is written with \<open>js\<close>, which maps each character to its code unit.
\<close>

type_synonym jschar = "16 word"
type_synonym jsstring = "jschar list"

definition js :: "string \<Rightarrow> jsstring" where
  "js s = map (\<lambda>c. of_nat (of_char c)) s"

text \<open>
  \<open>String.prototype.trim\<close> removes leading and trailing WhiteSpace and LineTerminator
  code points (ECMA-262, TrimString): TAB, LF, VT, FF, CR, SP, NBSP, U+1680,
  U+2000..U+200A, U+2028, U+2029, U+202F, U+205F, U+3000 and U+FEFF.
\<close>

definition isWhiteSpace :: "jschar \<Rightarrow> bool" where
  "isWhiteSpace c \<longleftrightarrow>
     (let n = uint c in
      (9 \<le> n \<and> n \<le> 13) \<or> n = 32 \<or> n = 160 \<or> n = 5760 \<or>
      (8192 \<le> n \<and> n \<le> 8202) \<or> n = 8232 \<or> n = 8233 \<or> n = 8239 \<or>
      n = 8287 \<or> n = 12288 \<or> n = 65279)"

definition trim :: "jsstring \<Rightarrow> jsstring" where
  "trim s = rev (dropWhile isWhiteSpace (rev (dropWhile isWhiteSpace s)))"

text \<open>Truthiness of an optional string property: \<open>undefined\<close> and \<open>""\<close> are falsy.\<close>

definition truthy :: "jsstring option \<Rightarrow> bool" where
  "truthy v = (case v of None \<Rightarrow> False | Some s \<Rightarrow> s \<noteq> [])"

section \<open>The Task type\<close>

text \<open>
  \<open>type Task = { id; title; dateISO; notifiedAt?; completedAt?; repeat? }\<close>.
  An optional property that is missing and one that holds \<open>undefined\<close> read the same
  (\<open>t.notifiedAt\<close> is \<open>undefined\<close>), and the program only ever reads them, so both are
  \<open>None\<close>. The field \<open>id\<close> is written \<open>id'\<close>.
\<close>

datatype repeat = RepeatNone | Daily | Weekdays

record task =
  id' :: jsstring
  title :: jsstring
  dateISO :: jsstring
  notifiedAt :: "jsstring option"
  completedAt :: "jsstring option"
  repeat :: "repeat option"

section \<open>Time values and the calendar of ECMA-262\<close>

text \<open>
  A Number that is a time value, a day of the month or a day of the week: either \<open>NaN\<close>
  or an integer (all of them are far below \<open>2^53\<close>, so the doubles of the program
  compute exactly as the integers here). A \<open>Date\<close> object is its time value.
\<close>

datatype number = NaN | Num int

datatype error = RangeError | SyntaxError | TypeError | SecurityError | QuotaExceededError

definition msPerDay :: int where
  "msPerDay = 86400000"

definition Day :: "int \<Rightarrow> int" where
  "Day t = t div msPerDay"

definition TimeWithinDay :: "int \<Rightarrow> int" where
  "TimeWithinDay t = t mod msPerDay"

definition DaysInYear :: "int \<Rightarrow> int" where
  "DaysInYear y =
     (if y mod 4 \<noteq> 0 then 365
      else if y mod 100 \<noteq> 0 then 366
      else if y mod 400 \<noteq> 0 then 365
      else 366)"

definition DayFromYear :: "int \<Rightarrow> int" where
  "DayFromYear y =
     365 * (y - 1970) + (y - 1969) div 4 - (y - 1901) div 100 + (y - 1601) div 400"

text \<open>
  \<open>YearFromTime t\<close> is the largest \<open>y\<close> with \<open>DayFromYear y \<le> Day t\<close>. It is computed
  from the mean year length and put right by at most one year (lemma
  \<open>YearFromTime_largest\<close> below shows that this is that year).
\<close>

definition YearFromTime :: "int \<Rightarrow> int" where
  "YearFromTime t =
     (let d = Day t; y = 1970 + (400 * d) div 146097 in
      if DayFromYear (y + 1) \<le> d then y + 1
      else if d < DayFromYear y then y - 1
      else y)"

definition DayWithinYear :: "int \<Rightarrow> int" where
  "DayWithinYear t = Day t - DayFromYear (YearFromTime t)"

definition InLeapYear :: "int \<Rightarrow> int" where
  "InLeapYear t = (if DaysInYear (YearFromTime t) = 366 then 1 else 0)"

text \<open>The day of the year on which month \<open>m\<close> (0 to 11) starts; \<open>l\<close> is 1 in a leap year.\<close>

definition MonthStart :: "int \<Rightarrow> int \<Rightarrow> int" where
  "MonthStart m l =
     (if m = 0 then 0 else if m = 1 then 31 else if m = 2 then 59 + l
      else if m = 3 then 90 + l else if m = 4 then 120 + l else if m = 5 then 151 + l
      else if m = 6 then 181 + l else if m = 7 then 212 + l else if m = 8 then 243 + l
      else if m = 9 then 273 + l else if m = 10 then 304 + l else 334 + l)"

definition MonthFromTime :: "int \<Rightarrow> int" where
  "MonthFromTime t =
     (let d = DayWithinYear t; l = InLeapYear t in
      if d < 31 then 0 else if d < 59 + l then 1 else if d < 90 + l then 2
      else if d < 120 + l then 3 else if d < 151 + l then 4 else if d < 181 + l then 5
      else if d < 212 + l then 6 else if d < 243 + l then 7 else if d < 273 + l then 8
      else if d < 304 + l then 9 else if d < 334 + l then 10 else 11)"

definition DateFromTime :: "int \<Rightarrow> int" where
  "DateFromTime t =
     (let d = DayWithinYear t; l = InLeapYear t; m = MonthFromTime t in
      if m = 0 then d + 1 else if m = 1 then d - 30 else if m = 2 then d - 58 - l
      else if m = 3 then d - 89 - l else if m = 4 then d - 119 - l
      else if m = 5 then d - 150 - l else if m = 6 then d - 180 - l
      else if m = 7 then d - 211 - l else if m = 8 then d - 242 - l
      else if m = 9 then d - 272 - l else if m = 10 then d - 303 - l
      else d - 333 - l)"

definition WeekDay :: "int \<Rightarrow> int" where
  "WeekDay t = (Day t + 4) mod 7"

definition HourFromTime :: "int \<Rightarrow> int" where
  "HourFromTime t = (t div 3600000) mod 24"

definition MinFromTime :: "int \<Rightarrow> int" where
  "MinFromTime t = (t div 60000) mod 60"

definition SecFromTime :: "int \<Rightarrow> int" where
  "SecFromTime t = (t div 1000) mod 60"

definition msFromTime :: "int \<Rightarrow> int" where
  "msFromTime t = t mod 1000"

text \<open>
  \<open>MakeDay year month date\<close>: the day number of the first of the month, plus
  \<open>date - 1\<close>; a month outside 0..11 carries into the year.
\<close>

definition MakeDay :: "int \<Rightarrow> int \<Rightarrow> int \<Rightarrow> int" where
  "MakeDay year month date =
     (let ym = year + month div 12; mn = month mod 12 in
      DayFromYear ym + MonthStart mn (if DaysInYear ym = 366 then 1 else 0) + date - 1)"

definition MakeDate :: "int \<Rightarrow> int \<Rightarrow> int" where
  "MakeDate day time = day * msPerDay + time"

definition TimeClip :: "int \<Rightarrow> number" where
  "TimeClip t = (if \<bar>t\<bar> > 8640000000000000 then NaN else Num t)"

section \<open>Date objects\<close>

text \<open>
  What the host supplies to the page: \<open>new Date(string)\<close> (the time value the string
  parses to, \<open>NaN\<close> for an invalid date; only the Date Time String Format is fixed by
  ECMA-262), the local time zone adjustment \<open>LocalTZA t isUTC\<close> in milliseconds (at
  the UTC instant \<open>t\<close> when \<open>isUTC\<close>, for the local time value \<open>t\<close> otherwise), and
  whether \<open>"Notification" in window && Notification.permission === "granted"\<close>.
\<close>

record host =
  Date_parse :: "jsstring \<Rightarrow> number"
  LocalTZA :: "int \<Rightarrow> bool \<Rightarrow> int"
  notificationGranted :: bool

definition LocalTime :: "host \<Rightarrow> int \<Rightarrow> int" where
  "LocalTime h t = t + LocalTZA h t True"

definition UTC :: "host \<Rightarrow> int \<Rightarrow> int" where
  "UTC h t = t - LocalTZA h t False"

definition getDate :: "host \<Rightarrow> number \<Rightarrow> number" where
  "getDate h d = (case d of NaN \<Rightarrow> NaN | Num t \<Rightarrow> Num (DateFromTime (LocalTime h t)))"

definition getDay :: "host \<Rightarrow> number \<Rightarrow> number" where
  "getDay h d = (case d of NaN \<Rightarrow> NaN | Num t \<Rightarrow> Num (WeekDay (LocalTime h t)))"

text \<open>\<open>d.setDate(dt)\<close>; the result is the new time value of \<open>d\<close>.\<close>

definition setDate :: "host \<Rightarrow> number \<Rightarrow> number \<Rightarrow> number" where
  "setDate h dt d =
     (case d of
        NaN \<Rightarrow> NaN
      | Num t \<Rightarrow>
          (case dt of
             NaN \<Rightarrow> NaN
           | Num n \<Rightarrow>
               (let l = LocalTime h t;
                    newDate = MakeDate (MakeDay (YearFromTime l) (MonthFromTime l) n)
                                (TimeWithinDay l)
                in TimeClip (UTC h newDate))))"

definition plus1 :: "number \<Rightarrow> number" where
  "plus1 x = (case x of NaN \<Rightarrow> NaN | Num n \<Rightarrow> Num (n + 1))"

text \<open>\<open>[0, 6].includes(x)\<close>: \<open>NaN\<close> is neither.\<close>

definition includes06 :: "number \<Rightarrow> bool" where
  "includes06 x = (case x of NaN \<Rightarrow> False | Num n \<Rightarrow> n = 0 \<or> n = 6)"

text \<open>\<open>a.getTime() >= b.getTime()\<close>: false when either is \<open>NaN\<close>.\<close>

definition ge_number :: "number \<Rightarrow> number \<Rightarrow> bool" where
  "ge_number a b =
     (case a of NaN \<Rightarrow> False | Num x \<Rightarrow> (case b of NaN \<Rightarrow> False | Num y \<Rightarrow> x \<ge> y))"

definition digit :: "int \<Rightarrow> jschar" where
  "digit n = word_of_int (48 + n mod 10)"

definition pad2 :: "int \<Rightarrow> jsstring" where
  "pad2 n = [digit (n div 10), digit n]"

definition pad3 :: "int \<Rightarrow> jsstring" where
  "pad3 n = digit (n div 100) # pad2 n"

definition pad4 :: "int \<Rightarrow> jsstring" where
  "pad4 n = digit (n div 1000) # pad3 n"

definition pad6 :: "int \<Rightarrow> jsstring" where
  "pad6 n = digit (n div 100000) # digit (n div 10000) # pad4 n"

definition yearString :: "int \<Rightarrow> jsstring" where
  "yearString y =
     (if 0 \<le> y \<and> y \<le> 9999 then pad4 y
      else (if y < 0 then js ''-'' else js ''+'') @ pad6 \<bar>y\<bar>)"

text \<open>The text \<open>YYYY-MM-DDTHH:mm:ss.sssZ\<close> of a time value, in UTC.\<close>

definition isoString :: "int \<Rightarrow> jsstring" where
  "isoString t =
     yearString (YearFromTime t) @ js ''-'' @ pad2 (MonthFromTime t + 1) @ js ''-'' @
     pad2 (DateFromTime t) @ js ''T'' @ pad2 (HourFromTime t) @ js '':'' @
     pad2 (MinFromTime t) @ js '':'' @ pad2 (SecFromTime t) @ js ''.'' @
     pad3 (msFromTime t) @ js ''Z''"

text \<open>\<open>d.toISOString()\<close> throws a RangeError on an invalid date.\<close>

definition toISOString :: "number \<Rightarrow> error + jsstring" where
  "toISOString d = (case d of NaN \<Rightarrow> Inl RangeError | Num t \<Rightarrow> Inr (isoString t))"

section \<open>The scanner\<close>

text \<open>
  The callback of \<open>setInterval\<close> in \<open>HomePage\<close>, every 5 seconds:
  \<^verbatim>\<open>
  const now = new Date();
  setTasks(prev => prev.map(t => {
    const due = new Date(t.dateISO);
    const isDue = now.getTime() >= due.getTime();
    const notSent = !t.notifiedAt;
    if (isDue && notSent) {
      if ("Notification" in window && Notification.permission === "granted") {
        try { new Notification("To-Do Reminder", { body: `${t.title} ? due now`, ... }) } catch {}
      }
      if (soundReady) triggerBeep();
      const next: Task = { ...t, notifiedAt: new Date().toISOString() };
      if (t.repeat && t.repeat !== "none") {
        const nextDate = new Date(due);
        if (t.repeat === "daily") {
          nextDate.setDate(nextDate.getDate() + 1);
        } else if (t.repeat === "weekdays") {
          do { nextDate.setDate(nextDate.getDate() + 1); }
          while ([0, 6].includes(nextDate.getDay()));
        }
        next.dateISO = nextDate.toISOString();
        next.notifiedAt = undefined;
      }
      return next;
    }
    return t;
  }));
  \<close>
  The side effects are returned as a list: the notification the page asks the platform
  to show (whether the platform then shows it or throws is of no consequence to the
  task, the exception being caught), and the beep of \<open>triggerBeep\<close> (1600 ms), which
  plays because \<open>soundReady\<close> is only set once the audio context exists. The updater
  is run once for a tick.
\<close>

datatype effect = Notification jsstring jsstring | Beep nat

definition isDue :: "host \<Rightarrow> int \<Rightarrow> task \<Rightarrow> bool" where
  "isDue h now t = ge_number (Num now) (Date_parse h (dateISO t))"

definition notSent :: "task \<Rightarrow> bool" where
  "notSent t = (\<not> truthy (notifiedAt t))"

definition alerts :: "host \<Rightarrow> bool \<Rightarrow> task \<Rightarrow> effect list" where
  "alerts h soundReady t =
     (if notificationGranted h
      then [Notification (js ''To-Do Reminder'') (title t @ js '' ? due now'')] else []) @
     (if soundReady then [Beep 1600] else [])"

text \<open>
  The \<open>do ... while\<close> loop of the \<open>weekdays\<close> cadence. Nothing in the program bounds
  it: whether it ends depends on the host's time zone, so it is a partial function and
  \<open>None\<close> is the loop that runs forever.
\<close>

partial_function (option) advanceWeekdays :: "host \<Rightarrow> number \<Rightarrow> number option" where
  "advanceWeekdays h nextDate =
     (let d = setDate h (plus1 (getDate h nextDate)) nextDate in
      if includes06 (getDay h d) then advanceWeekdays h d else Some d)"

definition reschedule :: "host \<Rightarrow> repeat \<Rightarrow> number \<Rightarrow> number option" where
  "reschedule h r due =
     (case r of
        Daily \<Rightarrow> Some (setDate h (plus1 (getDate h due)) due)
      | Weekdays \<Rightarrow> advanceWeekdays h due
      | RepeatNone \<Rightarrow> Some due)"

text \<open>
  One task of the sweep, at the clock reading \<open>now\<close> of the tick; \<open>stamp\<close> is the clock
  reading of \<open>new Date()\<close> inside the branch. The result is \<open>None\<close> when the loop does
  not end, and otherwise the effects fired together with the task returned or the
  exception thrown.
\<close>

definition scanTask ::
  "host \<Rightarrow> bool \<Rightarrow> int \<Rightarrow> int \<Rightarrow> task \<Rightarrow> (effect list \<times> (error + task)) option" where
  "scanTask h soundReady now stamp t =
     (if isDue h now t \<and> notSent t then
        (let fx = alerts h soundReady t;
             next = t\<lparr>notifiedAt := Some (isoString stamp)\<rparr>
         in if repeat t \<noteq> None \<and> repeat t \<noteq> Some RepeatNone then
              (case reschedule h (the (repeat t)) (Date_parse h (dateISO t)) of
                 None \<Rightarrow> None
               | Some nextDate \<Rightarrow>
                   (case toISOString nextDate of
                      Inl e \<Rightarrow> Some (fx, Inl e)
                    | Inr s \<Rightarrow> Some (fx, Inr (next\<lparr>dateISO := s, notifiedAt := None\<rparr>))))
            else Some (fx, Inr next))
      else Some ([], Inr t))"

text \<open>
  \<open>prev.map\<close> over the collection, from index \<open>i\<close>; \<open>clock i\<close> is the reading taken
  while the task at index \<open>i\<close> is handled. An exception ends the map.
\<close>

fun sweepFrom ::
  "host \<Rightarrow> bool \<Rightarrow> int \<Rightarrow> (nat \<Rightarrow> int) \<Rightarrow> nat \<Rightarrow> task list \<Rightarrow>
   (effect list \<times> (error + task list)) option" where
  "sweepFrom h soundReady now clock i [] = Some ([], Inr [])"
| "sweepFrom h soundReady now clock i (t # ts) =
     (case scanTask h soundReady now (clock i) t of
        None \<Rightarrow> None
      | Some (fx, Inl e) \<Rightarrow> Some (fx, Inl e)
      | Some (fx, Inr t') \<Rightarrow>
          (case sweepFrom h soundReady now clock (Suc i) ts of
             None \<Rightarrow> None
           | Some (fx', Inl e) \<Rightarrow> Some (fx @ fx', Inl e)
           | Some (fx', Inr ts') \<Rightarrow> Some (fx @ fx', Inr (t' # ts'))))"

definition sweep ::
  "host \<Rightarrow> bool \<Rightarrow> int \<Rightarrow> (nat \<Rightarrow> int) \<Rightarrow> task list \<Rightarrow>
   (effect list \<times> (error + task list)) option" where
  "sweep h soundReady now clock prev = sweepFrom h soundReady now clock 0 prev"

section \<open>The task store\<close>

text \<open>
  \<^verbatim>\<open>
  const addTask = () => {
    if (!title.trim()) return;
    const id = crypto.randomUUID();
    const dateISO = new Date(`${date}T${time}:00`).toISOString();
    setTasks(prev => [{ id, title: title.trim(), dateISO, repeat }, ...prev]);
    setTitle("");
  };
  \<close>
  \<open>title'\<close>, \<open>date'\<close>, \<open>time'\<close> and \<open>repeat'\<close> are the form's state, \<open>uuid\<close> is what
  \<open>crypto.randomUUID()\<close> returns. The result is the collection and the title field
  afterwards, or the RangeError of \<open>toISOString\<close> when the form's date and time do not
  make a valid date.
\<close>

definition addTask ::
  "host \<Rightarrow> jsstring \<Rightarrow> jsstring \<Rightarrow> jsstring \<Rightarrow> jsstring \<Rightarrow> repeat \<Rightarrow> task list \<Rightarrow>
   error + (task list \<times> jsstring)" where
  "addTask h uuid title' date' time' repeat' prev =
     (if trim title' = [] then Inr (prev, title')
      else
        (case toISOString (Date_parse h (date' @ js ''T'' @ time' @ js '':00'')) of
           Inl e \<Rightarrow> Inl e
         | Inr dateISO' \<Rightarrow>
             Inr (\<lparr>id' = uuid, title = trim title', dateISO = dateISO', notifiedAt = None,
                    completedAt = None, repeat = Some repeat'\<rparr> # prev, [])))"

text \<open>
  \<^verbatim>\<open>
  const markDone = (id: string) => {
    setTasks(prev => prev.map(t =>
      (t.id === id ? { ...t, completedAt: new Date().toISOString() } : t)));
  };
  \<close>
  \<open>clock i\<close> is the reading of \<open>new Date()\<close> at index \<open>i\<close>.
\<close>

fun markDoneFrom :: "(nat \<Rightarrow> int) \<Rightarrow> nat \<Rightarrow> jsstring \<Rightarrow> task list \<Rightarrow> task list" where
  "markDoneFrom clock i ident [] = []"
| "markDoneFrom clock i ident (t # ts) =
     (if id' t = ident then t\<lparr>completedAt := Some (isoString (clock i))\<rparr> else t) #
     markDoneFrom clock (Suc i) ident ts"

definition markDone :: "(nat \<Rightarrow> int) \<Rightarrow> jsstring \<Rightarrow> task list \<Rightarrow> task list" where
  "markDone clock ident prev = markDoneFrom clock 0 ident prev"

text \<open>
  The button of a task in the list:
  \<open><button onClick={() => markDone(t.id)} disabled={!!t.completedAt}>\<close>.
  A disabled button does not run its handler.
\<close>

definition clickDone :: "(nat \<Rightarrow> int) \<Rightarrow> task \<Rightarrow> task list \<Rightarrow> task list" where
  "clickDone clock t prev = (if truthy (completedAt t) then prev else markDone clock (id' t) prev)"

text \<open>\<open>setTasks(prev => prev.filter(t => t.id !== id))\<close>\<close>

definition removeTask :: "jsstring \<Rightarrow> task list \<Rightarrow> task list" where
  "removeTask ident prev = filter (\<lambda>t. id' t \<noteq> ident) prev"

section \<open>Two hosts\<close>

text \<open>
  Hosts on which the definitions are evaluated. \<open>parseISO\<close> reads the form that
  \<open>toISOString\<close> writes, \<open>YYYY-MM-DDTHH:mm:ss.sssZ\<close> with a year of four digits, or of
  six digits after a sign (\<open>+275760-09-13T00:00:00.000Z\<close>), and is \<open>NaN\<close> on every
  other string, on a date or time that does not exist and on a time value out of the
  range of \<open>Date\<close> (a browser reads further forms, which no evaluation below uses).
  \<open>parseFields\<close> reads what follows the year.
\<close>

definition isDigit :: "jschar \<Rightarrow> bool" where
  "isDigit c \<longleftrightarrow> 48 \<le> uint c \<and> uint c \<le> 57"

definition decimal :: "jsstring \<Rightarrow> int" where
  "decimal s = foldl (\<lambda>a c. 10 * a + (uint c - 48)) 0 s"

definition slice :: "nat \<Rightarrow> nat \<Rightarrow> jsstring \<Rightarrow> jsstring" where
  "slice i n s = take n (drop i s)"

definition parseFields :: "int \<Rightarrow> jsstring \<Rightarrow> number" where
  "parseFields y s =
     (if length s = 20 \<and>
         list_all isDigit (slice 1 2 s @ slice 4 2 s @ slice 7 2 s @ slice 10 2 s @
                           slice 13 2 s @ slice 16 3 s) \<and>
         slice 0 1 s = js ''-'' \<and> slice 3 1 s = js ''-'' \<and> slice 6 1 s = js ''T'' \<and>
         slice 9 1 s = js '':'' \<and> slice 12 1 s = js '':'' \<and> slice 15 1 s = js ''.'' \<and>
         slice 19 1 s = js ''Z''
      then
        (let mo = decimal (slice 1 2 s); d = decimal (slice 4 2 s);
             hh = decimal (slice 7 2 s); mi = decimal (slice 10 2 s);
             ss = decimal (slice 13 2 s); ms = decimal (slice 16 3 s);
             t = MakeDate (MakeDay y (mo - 1) d) (hh * 3600000 + mi * 60000 + ss * 1000 + ms)
         in if 1 \<le> mo \<and> mo \<le> 12 \<and> 1 \<le> d \<and> MonthFromTime t = mo - 1 \<and>
               hh \<le> 23 \<and> mi \<le> 59 \<and> ss \<le> 59
            then TimeClip t else NaN)
      else NaN)"

definition parseISO :: "jsstring \<Rightarrow> number" where
  "parseISO s =
     (if length s = 24 \<and> list_all isDigit (slice 0 4 s)
      then parseFields (decimal (slice 0 4 s)) (drop 4 s)
      else if length s = 27 \<and> list_all isDigit (slice 1 6 s) \<and> slice 0 1 s = js ''+''
      then parseFields (decimal (slice 1 6 s)) (drop 7 s)
      else if length s = 27 \<and> list_all isDigit (slice 1 6 s) \<and> slice 0 1 s = js ''-'' \<and>
              decimal (slice 1 6 s) \<noteq> 0
      then parseFields (- decimal (slice 1 6 s)) (drop 7 s)
      else NaN)"

text \<open>
  \<open>parseDate\<close> also reads the form without a zone, \<open>YYYY-MM-DDTHH:mm:ss\<close>, which is what
  \<open>addTask\<close> builds from the form's date and time; ECMA-262 takes it as local time.
\<close>

definition parseDate :: "(int \<Rightarrow> bool \<Rightarrow> int) \<Rightarrow> jsstring \<Rightarrow> number" where
  "parseDate tza s =
     (if length s = 19 then
        (case parseISO (s @ js ''.000Z'') of
           NaN \<Rightarrow> NaN
         | Num t \<Rightarrow> TimeClip (t - tza t False))
      else parseISO s)"

text \<open>A host in the zone UTC, with notifications granted.\<close>

definition utcHost :: host where
  "utcHost = \<lparr>Date_parse = parseDate (\<lambda>t isUTC. 0), LocalTZA = (\<lambda>t isUTC. 0),
               notificationGranted = True\<rparr>"

text \<open>
  A host in the zone America/New_York around the start of daylight saving time in 2024:
  five hours behind UTC until 2024-03-10T07:00:00Z and four hours behind from then on.
  The local times from 02:00 to 03:00 of that day do not exist; as ECMA-262 asks, a
  local time in that hour is read with the offset in force before the change.
\<close>

definition newYorkTZA :: "int \<Rightarrow> bool \<Rightarrow> int" where
  "newYorkTZA t isUTC =
     (if isUTC then (if t < 1710054000000 then - 18000000 else - 14400000)
      else (if t < 1710039600000 then - 18000000 else - 14400000))"

definition newYorkHost :: host where
  "newYorkHost = \<lparr>Date_parse = parseDate newYorkTZA, LocalTZA = newYorkTZA,
                   notificationGranted = True\<rparr>"

section \<open>Persistence\<close>

text \<open>
  The values of JSON. A number is the real number its double denotes; the program never
  looks at one. An object is the list of its properties, each key once.
\<close>

datatype json =
    JNull
  | JBoolean bool
  | JNumber real
  | JString jsstring
  | JArray "json list"
  | JObject "(jsstring \<times> json) list"

text \<open>
  \<open>JSON.parse\<close> and \<open>JSON.stringify\<close> belong to the host. \<open>JSON_parse\<close> returns the
  value or the SyntaxError it throws. \<open>JSON_stringify\<close> is \<open>JSON.stringify\<close> on a
  \<open>Task[]\<close>, the one type the program applies it to; on an array of plain objects with
  string properties it returns a string and does not throw.
\<close>

record json_api =
  JSON_parse :: "jsstring \<Rightarrow> error + json"
  JSON_stringify :: "task list \<Rightarrow> jsstring"

text \<open>
  \<open>localStorage\<close>. Reading or writing it throws a SecurityError when the page may not
  use storage, and \<open>setItem\<close> throws a QuotaExceededError when the value does not fit;
  \<open>quota\<close> is the longest value that fits.
\<close>

record storage =
  accessible :: bool
  items :: "jsstring \<Rightarrow> jsstring option"
  quota :: nat

definition getItem :: "storage \<Rightarrow> jsstring \<Rightarrow> error + jsstring option" where
  "getItem st k = (if accessible st then Inr (items st k) else Inl SecurityError)"

definition setItem :: "storage \<Rightarrow> jsstring \<Rightarrow> jsstring \<Rightarrow> error + storage" where
  "setItem st k v =
     (if \<not> accessible st then Inl SecurityError
      else if quota st < length v then Inl QuotaExceededError
      else Inr (st\<lparr>items := (items st)(k \<mapsto> v)\<rparr>))"

definition STORAGE_KEY :: jsstring where
  "STORAGE_KEY = js ''smart-todo-tasks-v1''"

text \<open>
  The object spread \<open>{ ...t }\<close> of a JSON value: the properties of an object, the
  elements of an array or the code units of a string under their indices, and nothing
  for \<open>null\<close>, a boolean or a number.
\<close>

fun natString :: "nat \<Rightarrow> jsstring" where
  "natString n = (if n < 10 then [digit (int n)] else natString (n div 10) @ [digit (int n)])"

definition indexed :: "json list \<Rightarrow> (jsstring \<times> json) list" where
  "indexed xs = zip (map natString [0..<length xs]) xs"

fun spread :: "json \<Rightarrow> (jsstring \<times> json) list" where
  "spread (JObject ps) = ps"
| "spread (JArray xs) = indexed xs"
| "spread (JString s) = indexed (map (\<lambda>c. JString [c]) s)"
| "spread JNull = []"
| "spread (JBoolean b) = []"
| "spread (JNumber x) = []"

text \<open>
  \<^verbatim>\<open>
  function loadTasks(): Task[] {
    try {
      const raw = localStorage.getItem(STORAGE_KEY);
      if (!raw) return [];
      const parsed: Task[] = JSON.parse(raw);
      return parsed.map(t => ({ ...t }));
    } catch {
      return [];
    }
  }
  \<close>
  \<open>loadTasks_try\<close> is the body of the \<open>try\<close>: \<open>parsed.map\<close> is a TypeError unless
  \<open>parsed\<close> is an array. \<open>loadTasks\<close> adds the \<open>catch\<close>; its type keeps the exception
  so that "it never throws" is a statement about it. The type annotation checks
  nothing, so what comes back is a list of objects, read as tasks by \<open>taskOf\<close>.
\<close>

definition loadTasks_try :: "json_api \<Rightarrow> storage \<Rightarrow> error + json list" where
  "loadTasks_try api st =
     (case getItem st STORAGE_KEY of
        Inl e \<Rightarrow> Inl e
      | Inr None \<Rightarrow> Inr []
      | Inr (Some raw) \<Rightarrow>
          if raw = [] then Inr []
          else
            (case JSON_parse api raw of
               Inl e \<Rightarrow> Inl e
             | Inr (JArray parsed) \<Rightarrow> Inr (map (\<lambda>t. JObject (spread t)) parsed)
             | Inr _ \<Rightarrow> Inl TypeError))"

definition loadTasks :: "json_api \<Rightarrow> storage \<Rightarrow> error + json list" where
  "loadTasks api st = (case loadTasks_try api st of Inl e \<Rightarrow> Inr [] | Inr ts \<Rightarrow> Inr ts)"

text \<open>
  The JSON value of a task: a property that is missing or \<open>undefined\<close> is left out, as
  \<open>JSON.stringify\<close> leaves it out. The properties are listed in the order of the type;
  the program never depends on their order.
\<close>

definition repeatString :: "repeat \<Rightarrow> jsstring" where
  "repeatString r =
     (case r of RepeatNone \<Rightarrow> js ''none'' | Daily \<Rightarrow> js ''daily'' | Weekdays \<Rightarrow> js ''weekdays'')"

definition optional :: "jsstring \<Rightarrow> jsstring option \<Rightarrow> (jsstring \<times> json) list" where
  "optional k v = (case v of None \<Rightarrow> [] | Some s \<Rightarrow> [(k, JString s)])"

definition taskJSON :: "task \<Rightarrow> json" where
  "taskJSON t =
     JObject ([(js ''id'', JString (id' t)), (js ''title'', JString (title t)),
               (js ''dateISO'', JString (dateISO t))] @
              optional (js ''notifiedAt'') (notifiedAt t) @
              optional (js ''completedAt'') (completedAt t) @
              optional (js ''repeat'') (map_option repeatString (repeat t)))"

text \<open>\<open>localStorage.setItem(STORAGE_KEY, JSON.stringify(tasks))\<close>\<close>

definition saveTasks :: "json_api \<Rightarrow> task list \<Rightarrow> storage \<Rightarrow> error + storage" where
  "saveTasks api tasks st =
     setItem st STORAGE_KEY (JSON_stringify api tasks)"

text \<open>
  Reading an object as a \<open>Task\<close>: \<open>Some\<close> of the task when every property has the type
  that \<open>Task\<close> declares, \<open>None\<close> otherwise.
\<close>

definition stringProp :: "(jsstring \<times> json) list \<Rightarrow> jsstring \<Rightarrow> jsstring option" where
  "stringProp ps k = (case map_of ps k of Some (JString s) \<Rightarrow> Some s | _ \<Rightarrow> None)"

definition wellTyped :: "(jsstring \<times> json) list \<Rightarrow> jsstring \<Rightarrow> bool" where
  "wellTyped ps k = (case map_of ps k of None \<Rightarrow> True | Some (JString s) \<Rightarrow> True | _ \<Rightarrow> False)"

definition repeatOf :: "jsstring \<Rightarrow> repeat option" where
  "repeatOf s =
     (if s = js ''none'' then Some RepeatNone else if s = js ''daily'' then Some Daily
      else if s = js ''weekdays'' then Some Weekdays else None)"

definition taskOf :: "json \<Rightarrow> task option" where
  "taskOf v =
     (case v of
        JObject ps \<Rightarrow>
          (case (stringProp ps (js ''id''), stringProp ps (js ''title''),
                 stringProp ps (js ''dateISO'')) of
             (Some i, Some ti, Some d) \<Rightarrow>
               if wellTyped ps (js ''notifiedAt'') \<and> wellTyped ps (js ''completedAt'') \<and>
                  wellTyped ps (js ''repeat'') \<and>
                  (case stringProp ps (js ''repeat'') of
                     None \<Rightarrow> True | Some r \<Rightarrow> repeatOf r \<noteq> None)
               then Some \<lparr>id' = i, title = ti, dateISO = d,
                          notifiedAt = stringProp ps (js ''notifiedAt''),
                          completedAt = stringProp ps (js ''completedAt''),
                          repeat = (case stringProp ps (js ''repeat'') of
                                      None \<Rightarrow> None | Some r \<Rightarrow> repeatOf r)\<rparr>
               else None
           | _ \<Rightarrow> None)
      | _ \<Rightarrow> None)"

section \<open>A host's JSON\<close>

text \<open>
  JSON functions on which the statements about persistence are evaluated.
  \<open>stringifyTasks\<close> writes a collection as \<open>JSON.stringify\<close> does: the properties of a
  task in order, no white space, and strings quoted as QuoteJSONString of ECMA-262
  quotes them (34 is the quotation mark, 92 the backslash).
\<close>

definition hexDigit :: "int \<Rightarrow> jschar" where
  "hexDigit n = (let d = n mod 16 in word_of_int (if d < 10 then 48 + d else 87 + d))"

definition unicodeEscape :: "jschar \<Rightarrow> jsstring" where
  "unicodeEscape c =
     [92, 117, hexDigit (uint c div 4096), hexDigit (uint c div 256),
      hexDigit (uint c div 16), hexDigit (uint c)]"

definition escapeUnit :: "jschar \<Rightarrow> jsstring" where
  "escapeUnit c =
     (if c = 8 then [92, 98] else if c = 9 then [92, 116] else if c = 10 then [92, 110]
      else if c = 12 then [92, 102] else if c = 13 then [92, 114]
      else if c = 34 then [92, 34] else if c = 92 then [92, 92]
      else if uint c < 32 then unicodeEscape c else [c])"

definition isLeadingSurrogate :: "jschar \<Rightarrow> bool" where
  "isLeadingSurrogate c \<longleftrightarrow> 55296 \<le> uint c \<and> uint c \<le> 56319"

definition isTrailingSurrogate :: "jschar \<Rightarrow> bool" where
  "isTrailingSurrogate c \<longleftrightarrow> 56320 \<le> uint c \<and> uint c \<le> 57343"

fun escapeJSON :: "jsstring \<Rightarrow> jsstring" where
  "escapeJSON [] = []"
| "escapeJSON [c] =
     (if isLeadingSurrogate c \<or> isTrailingSurrogate c then unicodeEscape c else escapeUnit c)"
| "escapeJSON (c # d # cs) =
     (if isLeadingSurrogate c \<and> isTrailingSurrogate d then c # d # escapeJSON cs
      else if isLeadingSurrogate c \<or> isTrailingSurrogate c
      then unicodeEscape c @ escapeJSON (d # cs)
      else escapeUnit c @ escapeJSON (d # cs))"

definition quoteJSON :: "jsstring \<Rightarrow> jsstring" where
  "quoteJSON s = 34 # escapeJSON s @ [34]"

fun commaJoin :: "jsstring list \<Rightarrow> jsstring" where
  "commaJoin [] = []"
| "commaJoin [x] = x"
| "commaJoin (x # y # ys) = x @ js '','' @ commaJoin (y # ys)"

definition stringifyProp :: "jsstring \<times> jsstring \<Rightarrow> jsstring" where
  "stringifyProp kv = quoteJSON (fst kv) @ js '':'' @ quoteJSON (snd kv)"

definition taskProps :: "task \<Rightarrow> (jsstring \<times> jsstring) list" where
  "taskProps t =
     [(js ''id'', id' t), (js ''title'', title t), (js ''dateISO'', dateISO t)] @
     (case notifiedAt t of None \<Rightarrow> [] | Some s \<Rightarrow> [(js ''notifiedAt'', s)]) @
     (case completedAt t of None \<Rightarrow> [] | Some s \<Rightarrow> [(js ''completedAt'', s)]) @
     (case repeat t of None \<Rightarrow> [] | Some r \<Rightarrow> [(js ''repeat'', repeatString r)])"

definition stringifyTask :: "task \<Rightarrow> jsstring" where
  "stringifyTask t = js ''{'' @ commaJoin (map stringifyProp (taskProps t)) @ js ''}''"

definition stringifyTasks :: "task list \<Rightarrow> jsstring" where
  "stringifyTasks ts = js ''['' @ commaJoin (map stringifyTask ts) @ js '']''"

text \<open>
  \<open>parseJSON\<close> reads the texts of JSON that hold no number (a text with a number is a
  SyntaxError here; no evaluation below has one). The recursion is bounded by the
  length of the text.
\<close>

definition skipWs :: "jsstring \<Rightarrow> jsstring" where
  "skipWs s = dropWhile (\<lambda>c. c = 32 \<or> c = 9 \<or> c = 10 \<or> c = 13) s"

definition hexValue :: "jschar \<Rightarrow> int option" where
  "hexValue c =
     (let n = uint c in
      if 48 \<le> n \<and> n \<le> 57 then Some (n - 48)
      else if 97 \<le> n \<and> n \<le> 102 then Some (n - 87)
      else if 65 \<le> n \<and> n \<le> 70 then Some (n - 55)
      else None)"

fun stringBody :: "jsstring \<Rightarrow> (jsstring \<times> jsstring) option" where
  "stringBody [] = None"
| "stringBody (c # cs) =
     (if c = 34 then Some ([], cs)
      else if uint c < 32 then None
      else if c = 92 then
        (case cs of
           [] \<Rightarrow> None
         | e # es \<Rightarrow>
             if e = 117 then
               (case es of
                  a # b # c' # d # rest \<Rightarrow>
                    (case (hexValue a, hexValue b, hexValue c', hexValue d) of
                       (Some w, Some x, Some y, Some z) \<Rightarrow>
                         map_option (\<lambda>(s, r). (word_of_int (4096 * w + 256 * x + 16 * y + z) # s, r))
                           (stringBody rest)
                     | _ \<Rightarrow> None)
                | _ \<Rightarrow> None)
             else
               (case (if e = 34 then Some 34 else if e = 92 then Some 92
                      else if e = 47 then Some 47 else if e = 98 then Some 8
                      else if e = 102 then Some 12 else if e = 110 then Some 10
                      else if e = 114 then Some 13 else if e = 116 then Some 9
                      else None) of
                  None \<Rightarrow> None
                | Some u \<Rightarrow> map_option (\<lambda>(s, r). (u # s, r)) (stringBody es)))
      else map_option (\<lambda>(s, r). (c # s, r)) (stringBody cs))"

text \<open>A key read twice keeps its place and takes the later value.\<close>

fun setProp :: "jsstring \<Rightarrow> json \<Rightarrow> (jsstring \<times> json) list \<Rightarrow> (jsstring \<times> json) list" where
  "setProp k v [] = [(k, v)]"
| "setProp k v ((k', v') # ps) = (if k' = k then (k, v) # ps else (k', v') # setProp k v ps)"

fun parseValue :: "nat \<Rightarrow> jsstring \<Rightarrow> (json \<times> jsstring) option"
  and parseElements :: "nat \<Rightarrow> json list \<Rightarrow> jsstring \<Rightarrow> (json \<times> jsstring) option"
  and parseMembers ::
    "nat \<Rightarrow> (jsstring \<times> json) list \<Rightarrow> jsstring \<Rightarrow> (json \<times> jsstring) option" where
  "parseValue 0 s = None"
| "parseValue (Suc n) s =
     (case skipWs s of
        [] \<Rightarrow> None
      | c # cs \<Rightarrow>
          if c = 34 then map_option (\<lambda>(x, r). (JString x, r)) (stringBody cs)
          else if c = 91 then
            (case skipWs cs of
               [] \<Rightarrow> None
             | d # ds \<Rightarrow> if d = 93 then Some (JArray [], ds) else parseElements n [] cs)
          else if c = 123 then
            (case skipWs cs of
               [] \<Rightarrow> None
             | d # ds \<Rightarrow> if d = 125 then Some (JObject [], ds) else parseMembers n [] cs)
          else if take 4 (c # cs) = js ''true'' then Some (JBoolean True, drop 3 cs)
          else if take 5 (c # cs) = js ''false'' then Some (JBoolean False, drop 4 cs)
          else if take 4 (c # cs) = js ''null'' then Some (JNull, drop 3 cs)
          else None)"
| "parseElements 0 acc s = None"
| "parseElements (Suc n) acc s =
     (case parseValue n s of
        None \<Rightarrow> None
      | Some (v, r) \<Rightarrow>
          (case skipWs r of
             [] \<Rightarrow> None
           | d # ds \<Rightarrow>
               if d = 93 then Some (JArray (acc @ [v]), ds)
               else if d = 44 then parseElements n (acc @ [v]) ds
               else None))"
| "parseMembers 0 acc s = None"
| "parseMembers (Suc n) acc s =
     (case skipWs s of
        [] \<Rightarrow> None
      | q # qs \<Rightarrow>
          if q \<noteq> 34 then None
          else
            (case stringBody qs of
               None \<Rightarrow> None
             | Some (k, r) \<Rightarrow>
                 (case skipWs r of
                    [] \<Rightarrow> None
                  | c # cs \<Rightarrow>
                      if c \<noteq> 58 then None
                      else
                        (case parseValue n cs of
                           None \<Rightarrow> None
                         | Some (v, r') \<Rightarrow>
                             (case skipWs r' of
                                [] \<Rightarrow> None
                              | d # ds \<Rightarrow>
                                  if d = 125 then Some (JObject (setProp k v acc), ds)
                                  else if d = 44 then parseMembers n (setProp k v acc) ds
                                  else None)))))"

definition parseJSON :: "jsstring \<Rightarrow> error + json" where
  "parseJSON s =
     (case parseValue (2 * length s + 2) s of
        None \<Rightarrow> Inl SyntaxError
      | Some (v, r) \<Rightarrow> if skipWs r = [] then Inr v else Inl SyntaxError)"

definition jsonHost :: json_api where
  "jsonHost = \<lparr>JSON_parse = parseJSON, JSON_stringify = stringifyTasks\<rparr>"

text \<open>A storage that is empty, may be used and takes values of up to 5000000 code units.\<close>

definition emptyStorage :: storage where
  "emptyStorage = \<lparr>accessible = True, items = (\<lambda>k. None), quota = 5000000\<rparr>"

section \<open>Vocabulary of the statements\<close>

text \<open>The condition of the scanner's \<open>if (isDue && notSent)\<close>.\<close>

definition eligible :: "host \<Rightarrow> int \<Rightarrow> task \<Rightarrow> bool" where
  "eligible h now t \<longleftrightarrow> isDue h now t \<and> notSent t"


text \<open>
  The local time value \<open>l\<close> is the local time of the instant that the host gives to it:
  it is not a time of day that the clocks skip when they are put forward.
\<close>

definition localTimeExists :: "host \<Rightarrow> int \<Rightarrow> bool" where
  "localTimeExists h l \<longleftrightarrow> LocalTime h (UTC h l) = l"

text \<open>
  On the host, the local date and time of an instant moved one calendar day on is a
  later instant: \<open>setDate(getDate() + 1)\<close> steps forward.
\<close>

definition stepsForward :: "host \<Rightarrow> bool" where
  "stepsForward h \<longleftrightarrow> (\<forall>t. t < UTC h (LocalTime h t + msPerDay))"

text \<open>
  The host reads a timestamp that \<open>toISOString\<close> wrote back to its time value, as
  ECMA-262 asks of \<open>Date.parse\<close>.
\<close>

definition readsBack :: "host \<Rightarrow> bool" where
  "readsBack h \<longleftrightarrow> (\<forall>t. \<bar>t\<bar> \<le> 8640000000000000 \<longrightarrow> Date_parse h (isoString t) = Num t)"



text \<open>
  The number of days from a day of the week \<open>w\<close> (0 is Sunday) to the next day that is
  neither Saturday nor Sunday: three from a Friday, two from a Saturday, else one.
\<close>

definition daysToWeekday :: "int \<Rightarrow> int" where
  "daysToWeekday w = (if w = 5 then 3 else if w = 6 then 2 else 1)"

text \<open>No repeating task of the collection carries a notified timestamp.\<close>

definition repeating :: "task \<Rightarrow> bool" where
  "repeating t \<longleftrightarrow> repeat t = Some Daily \<or> repeat t = Some Weekdays"

definition noStampOnRepeating :: "task list \<Rightarrow> bool" where
  "noStampOnRepeating ts = list_all (\<lambda>t. \<not> repeating t \<or> notifiedAt t = None) ts"

section \<open>Sample data\<close>

text \<open>A task due on Friday 2024-01-05 at 09:00 UTC, on which statements are evaluated.\<close>

definition sample :: task where
  "sample = \<lparr>id' = js ''a1'', title = js ''Take pill'',
              dateISO = js ''2024-01-05T09:00:00.000Z'', notifiedAt = None,
              completedAt = None, repeat = None\<rparr>"

text \<open>
  The collections that the operations of the page reach from the empty one (the first
  visit), whatever the host, the clock and the user do.
\<close>

inductive reachable :: "task list \<Rightarrow> bool" where
  initial: "reachable []"
| added: "reachable ts \<Longrightarrow> addTask h uuid title' date' time' repeat' ts = Inr (ts', x) \<Longrightarrow>
        reachable ts'"
| completed: "reachable ts \<Longrightarrow> reachable (markDone clock ident ts)"
| removed: "reachable ts \<Longrightarrow> reachable (removeTask ident ts)"
| ticked: "reachable ts \<Longrightarrow> sweep h soundReady now clock ts = Some (fx, Inr ts') \<Longrightarrow>
         reachable ts'"

section \<open>The calendar\<close>

lemma div_lower: "0 < n \<Longrightarrow> x - (n - 1) \<le> n * (x div n)" for x n :: int
  using pos_mod_bound[of n x] mult_div_mod_eq[of n x] by linarith

lemma div_upper: "0 < n \<Longrightarrow> n * (x div n) \<le> x" for x n :: int
  using pos_mod_sign[of n x] mult_div_mod_eq[of n x] by linarith

lemma DayFromYear_lower: "146097 * k - 506 \<le> 400 * DayFromYear (1970 + k)"
  using div_lower[of 4 "k + 1"] div_upper[of 100 "k + 69"] div_lower[of 400 "k + 369"]
  by (simp add: DayFromYear_def)

lemma DayFromYear_upper: "400 * DayFromYear (1970 + k) \<le> 146097 * k + 589"
  using div_upper[of 4 "k + 1"] div_lower[of 100 "k + 69"] div_upper[of 400 "k + 369"]
  by (simp add: DayFromYear_def)

text \<open>\<open>YearFromTime\<close> is the year that ECMA-262 defines.\<close>

lemma YearFromTime_largest:
  "DayFromYear (YearFromTime t) \<le> Day t \<and> Day t < DayFromYear (YearFromTime t + 1)"
proof -
  define d where "d = Day t"
  define e where "e = (400 * d) div 146097"
  have e1: "146097 * e \<le> 400 * d"
    unfolding e_def using div_upper[of 146097 "400 * d"] by simp
  have e2: "400 * d < 146097 * (e + 1)"
    unfolding e_def using div_lower[of 146097 "400 * d"] by simp
  have a: "d < DayFromYear (1970 + e + 2)"
    using DayFromYear_lower[of "e + 2"] e2 by (simp add: add.assoc)
  have b: "DayFromYear (1970 + e - 1) \<le> d"
    using DayFromYear_upper[of "e - 1"] e1 by (simp add: algebra_simps)
  have y: "YearFromTime t =
      (if DayFromYear (1970 + e + 1) \<le> d then 1970 + e + 1
       else if d < DayFromYear (1970 + e) then 1970 + e - 1 else 1970 + e)"
    by (simp add: YearFromTime_def Let_def d_def e_def)
  show ?thesis
    unfolding y d_def[symmetric] using a b by (auto simp: add.assoc)
qed

lemma MonthFromTime_range: "0 \<le> MonthFromTime t \<and> MonthFromTime t \<le> 11"
  by (simp add: MonthFromTime_def Let_def)

lemma MonthStart_DateFromTime:
  "MonthStart (MonthFromTime t) (InLeapYear t) + DateFromTime t = DayWithinYear t + 1"
  by (simp add: MonthStart_def DateFromTime_def MonthFromTime_def Let_def)

text \<open>The day after \<open>t\<close>, as \<open>setDate(getDate() + 1)\<close> computes it, is the next day number.\<close>

lemma MakeDay_next:
  "MakeDay (YearFromTime t) (MonthFromTime t) (DateFromTime t + 1) = Day t + 1"
proof -
  have m: "MonthFromTime t div 12 = 0" "MonthFromTime t mod 12 = MonthFromTime t"
    using MonthFromTime_range[of t] by simp_all
  have "MakeDay (YearFromTime t) (MonthFromTime t) (DateFromTime t + 1) =
        DayFromYear (YearFromTime t) +
        (MonthStart (MonthFromTime t) (InLeapYear t) + DateFromTime t)"
    by (simp add: MakeDay_def Let_def m InLeapYear_def)
  also have "\<dots> = Day t + 1"
    by (simp add: MonthStart_DateFromTime DayWithinYear_def)
  finally show ?thesis .
qed

lemma MakeDate_next: "MakeDate (Day t + 1) (TimeWithinDay t) = t + msPerDay"
  by (simp add: MakeDate_def Day_def TimeWithinDay_def algebra_simps)

lemma setDate_next:
  "setDate h (plus1 (getDate h (Num t))) (Num t) =
   TimeClip (UTC h (LocalTime h t + msPerDay))"
  by (simp add: setDate_def plus1_def getDate_def Let_def MakeDay_next MakeDate_next)

lemma Day_add: "Day (t + j * msPerDay) = Day t + j"
  by (simp add: Day_def msPerDay_def)

lemma TimeWithinDay_add: "TimeWithinDay (t + j * msPerDay) = TimeWithinDay t"
  by (simp add: TimeWithinDay_def msPerDay_def)

lemma WeekDay_add: "WeekDay (t + j * msPerDay) = (WeekDay t + j) mod 7"
  unfolding WeekDay_def Day_add by presburger

lemma WeekDay_range: "0 \<le> WeekDay t \<and> WeekDay t < 7"
  by (simp add: WeekDay_def)


section \<open>Reading a timestamp back\<close>

text \<open>
  \<open>parseISO\<close> reads every timestamp that \<open>toISOString\<close> writes back to its time value,
  so the two hosts do as ECMA-262 asks of \<open>Date.parse\<close>.
\<close>

lemma uint_small: "0 \<le> x \<Longrightarrow> x < 65536 \<Longrightarrow> uint (word_of_int x :: 16 word) = x"
  by (simp add: uint_word_of_int take_bit_eq_mod)

lemma uint_digit: "uint (digit n) = 48 + n mod 10"
proof -
  have "0 \<le> n mod 10" "n mod 10 < 10" by simp_all
  then show ?thesis unfolding digit_def by (intro uint_small) linarith+
qed

lemma isDigit_digit: "isDigit (digit n)"
  using uint_digit[of n] by (simp add: isDigit_def)

lemma digit_split: "n div k = 10 * (n div (10 * k)) + (n div k) mod 10" if "0 < k" for n k :: int
proof -
  have "n div (10 * k) = (n div k) div 10"
    using that zdiv_zmult2_eq[of 10 n k] by (simp add: mult.commute)
  then show ?thesis by simp
qed

lemma decimal_digits:
  "decimal [digit a, digit b] = 10 * (a mod 10) + b mod 10"
  "decimal [digit a, digit b, digit c] = 100 * (a mod 10) + 10 * (b mod 10) + c mod 10"
  "decimal [digit a, digit b, digit c, digit d] =
     1000 * (a mod 10) + 100 * (b mod 10) + 10 * (c mod 10) + d mod 10"
  "decimal [digit a, digit b, digit c, digit d, digit e, digit f] =
     100000 * (a mod 10) + 10000 * (b mod 10) + 1000 * (c mod 10) + 100 * (d mod 10) +
     10 * (e mod 10) + f mod 10"
  by (simp_all add: decimal_def uint_digit)

lemma div10: "n = 10 * (n div 10) + n mod 10" for n :: int
  by simp

lemma decimal2: "0 \<le> n \<Longrightarrow> n < 100 \<Longrightarrow> decimal [digit (n div 10), digit n] = n"
proof -
  assume a: "0 \<le> n" "n < 100"
  then have t: "n div 100 = 0" by simp
  note d = div10[of n] digit_split[of 10 n, simplified]
  show ?thesis unfolding decimal_digits using t d by linarith
qed

lemma decimal3:
  "0 \<le> n \<Longrightarrow> n < 1000 \<Longrightarrow> decimal [digit (n div 100), digit (n div 10), digit n] = n"
proof -
  assume a: "0 \<le> n" "n < 1000"
  then have t: "n div 1000 = 0" by simp
  note d = div10[of n] digit_split[of 10 n, simplified] digit_split[of 100 n, simplified]
  show ?thesis unfolding decimal_digits using t d by linarith
qed

lemma decimal4:
  "0 \<le> n \<Longrightarrow> n < 10000 \<Longrightarrow>
   decimal [digit (n div 1000), digit (n div 100), digit (n div 10), digit n] = n"
proof -
  assume a: "0 \<le> n" "n < 10000"
  then have t: "n div 10000 = 0" by simp
  note d = div10[of n] digit_split[of 10 n, simplified] digit_split[of 100 n, simplified]
    digit_split[of 1000 n, simplified]
  show ?thesis unfolding decimal_digits using t d by linarith
qed

lemma decimal6:
  "0 \<le> n \<Longrightarrow> n < 1000000 \<Longrightarrow>
   decimal [digit (n div 100000), digit (n div 10000), digit (n div 1000), digit (n div 100),
            digit (n div 10), digit n] = n"
proof -
  assume a: "0 \<le> n" "n < 1000000"
  then have t: "n div 1000000 = 0" by simp
  note d = div10[of n] digit_split[of 10 n, simplified] digit_split[of 100 n, simplified]
    digit_split[of 1000 n, simplified] digit_split[of 10000 n, simplified]
    digit_split[of 100000 n, simplified]
  show ?thesis unfolding decimal_digits using t d by linarith
qed

lemma parseFields_fields:
  assumes "0 \<le> mo" "mo < 100" "0 \<le> d" "d < 100" "0 \<le> hh" "hh < 100" "0 \<le> mi" "mi < 100"
    "0 \<le> ss" "ss < 100" "0 \<le> ms" "ms < 1000"
  shows "parseFields y
           (js ''-'' @ pad2 mo @ js ''-'' @ pad2 d @ js ''T'' @ pad2 hh @ js '':'' @
            pad2 mi @ js '':'' @ pad2 ss @ js ''.'' @ pad3 ms @ js ''Z'') =
         (let t = MakeDate (MakeDay y (mo - 1) d) (hh * 3600000 + mi * 60000 + ss * 1000 + ms)
          in if 1 \<le> mo \<and> mo \<le> 12 \<and> 1 \<le> d \<and> MonthFromTime t = mo - 1 \<and>
                hh \<le> 23 \<and> mi \<le> 59 \<and> ss \<le> 59
             then TimeClip t else NaN)"
  using assms
  by (simp add: parseFields_def slice_def js_def pad2_def pad3_def isDigit_digit decimal2
      decimal3 Let_def)

lemma MakeDay_this:
  "MakeDay (YearFromTime t) (MonthFromTime t) (DateFromTime t) = Day t"
proof -
  have "MakeDay (YearFromTime t) (MonthFromTime t) (DateFromTime t + 1) =
      MakeDay (YearFromTime t) (MonthFromTime t) (DateFromTime t) + 1"
    by (simp add: MakeDay_def Let_def)
  with MakeDay_next[of t] show ?thesis by simp
qed

lemma div_split: "0 < b \<Longrightarrow> t div a = b * (t div (a * b)) + (t div a) mod b"
  for t a b :: int
proof -
  assume "0 < b"
  then have "t div (a * b) = t div a div b" by (simp add: zdiv_zmult2_eq)
  then show ?thesis by simp
qed

lemma time_fields:
  "HourFromTime t * 3600000 + MinFromTime t * 60000 + SecFromTime t * 1000 + msFromTime t =
   TimeWithinDay t"
proof -
  have a: "t = 1000 * (t div 1000) + t mod 1000" by simp
  note b = div_split[of 60 t 1000, simplified]
  note c = div_split[of 60 t 60000, simplified]
  note d = div_split[of 24 t 3600000, simplified]
  have e: "t = 86400000 * (t div 86400000) + t mod 86400000" by simp
  show ?thesis
    unfolding HourFromTime_def MinFromTime_def SecFromTime_def msFromTime_def
      TimeWithinDay_def msPerDay_def
    using a b c d e by linarith
qed

lemma time_ranges:
  "0 \<le> HourFromTime t" "HourFromTime t \<le> 23" "0 \<le> MinFromTime t" "MinFromTime t \<le> 59"
  "0 \<le> SecFromTime t" "SecFromTime t \<le> 59" "0 \<le> msFromTime t" "msFromTime t < 1000"
  by (simp_all add: HourFromTime_def MinFromTime_def SecFromTime_def msFromTime_def)

lemma DayFromYear_step:
  "DayFromYear (y + 1) - DayFromYear y \<le> 367"
proof -
  have "(y + 1 - 1969) div 4 \<le> (y - 1969) div 4 + 1"
    using div_lower[of 4 "y - 1969"] div_upper[of 4 "y + 1 - 1969"] by linarith
  moreover have "(y - 1901) div 100 \<le> (y + 1 - 1901) div 100"
    by (intro zdiv_mono1) simp_all
  moreover have "(y + 1 - 1601) div 400 \<le> (y - 1601) div 400 + 1"
    using div_lower[of 400 "y - 1601"] div_upper[of 400 "y + 1 - 1601"] by linarith
  ultimately show ?thesis by (simp add: DayFromYear_def)
qed

lemma DayWithinYear_range: "0 \<le> DayWithinYear t" "DayWithinYear t \<le> 366"
  using YearFromTime_largest[of t] DayFromYear_step[of "YearFromTime t"]
  by (simp_all add: DayWithinYear_def)

lemma DateFromTime_range: "1 \<le> DateFromTime t" "DateFromTime t < 100"
  using DayWithinYear_range[of t]
  by (simp_all add: DateFromTime_def MonthFromTime_def InLeapYear_def Let_def)

lemma YearFromTime_range:
  assumes "\<bar>t\<bar> \<le> 8640000000000000"
  shows "- 999999 \<le> YearFromTime t" "YearFromTime t \<le> 999999"
proof -
  define k where "k = YearFromTime t - 1970"
  have y: "YearFromTime t = 1970 + k" "YearFromTime t + 1 = 1970 + (k + 1)"
    by (simp_all add: k_def)
  have d: "- 100000000 \<le> Day t" "Day t \<le> 100000000"
    using assms div_lower[of 86400000 t] div_upper[of 86400000 t]
    by (simp_all add: Day_def msPerDay_def)
  have l: "DayFromYear (1970 + k) \<le> Day t" "Day t < DayFromYear (1970 + (k + 1))"
    using YearFromTime_largest[of t] unfolding k_def by (simp_all add: add.commute)
  have "k \<le> 900000"
    using DayFromYear_lower[of k] l(1) d(2) by linarith
  moreover have "- 900000 \<le> k"
  proof -
    define x where "x = DayFromYear (1970 + (k + 1))"
    have "400 * x \<le> 146097 * (k + 1) + 589" unfolding x_def by (rule DayFromYear_upper)
    then have "400 * x \<le> 146097 * k + 146686" by (simp add: algebra_simps)
    moreover have "Day t + 1 \<le> x" using l(2) unfolding x_def by linarith
    ultimately show ?thesis using d(1) by linarith
  qed
  ultimately show "- 999999 \<le> YearFromTime t" "YearFromTime t \<le> 999999"
    by (simp_all add: k_def)
qed

lemma MakeDate_this: "MakeDate (Day t) (TimeWithinDay t) = t"
  by (simp add: MakeDate_def Day_def TimeWithinDay_def)

lemma parseISO_isoString:
  assumes "\<bar>t\<bar> \<le> 8640000000000000"
  shows "parseISO (isoString t) = Num t"
proof -
  define y where "y = YearFromTime t"
  define r where "r = js ''-'' @ pad2 (MonthFromTime t + 1) @ js ''-'' @
     pad2 (DateFromTime t) @ js ''T'' @ pad2 (HourFromTime t) @ js '':'' @
     pad2 (MinFromTime t) @ js '':'' @ pad2 (SecFromTime t) @ js ''.'' @
     pad3 (msFromTime t) @ js ''Z''"
  have iso: "isoString t = yearString y @ r"
    by (simp add: isoString_def y_def r_def)
  have len: "length r = 20"
    by (simp add: r_def js_def pad2_def pad3_def)
  have "parseFields y r =
      (let t' = MakeDate (MakeDay y (MonthFromTime t + 1 - 1) (DateFromTime t))
                  (HourFromTime t * 3600000 + MinFromTime t * 60000 + SecFromTime t * 1000 +
                   msFromTime t)
       in if 1 \<le> MonthFromTime t + 1 \<and> MonthFromTime t + 1 \<le> 12 \<and> 1 \<le> DateFromTime t \<and>
             MonthFromTime t' = MonthFromTime t + 1 - 1 \<and>
             HourFromTime t \<le> 23 \<and> MinFromTime t \<le> 59 \<and> SecFromTime t \<le> 59
          then TimeClip t' else NaN)"
    unfolding r_def
    using MonthFromTime_range[of t] DateFromTime_range[of t] time_ranges[of t]
    by (intro parseFields_fields) linarith+
  then have pf: "parseFields y r = Num t"
    using MonthFromTime_range[of t] DateFromTime_range[of t] time_ranges[of t] assms
    by (simp add: y_def MakeDay_this time_fields MakeDate_this TimeClip_def)
  have yr: "- 999999 \<le> y" "y \<le> 999999"
    using YearFromTime_range[OF assms] by (simp_all add: y_def)
  consider (four) "0 \<le> y" "y \<le> 9999" | (plus) "9999 < y" | (minus) "y < 0" by linarith
  then have "parseISO (yearString y @ r) = Num t"
  proof cases
    case four
    then have d: "decimal [digit (y div 1000), digit (y div 100), digit (y div 10), digit y] = y"
      by (intro decimal4) linarith+
    from four show ?thesis
      by (simp add: parseISO_def yearString_def pad4_def pad3_def pad2_def slice_def len
          isDigit_digit d pf)
  next
    case plus
    with yr have d: "decimal [digit (y div 100000), digit (y div 10000), digit (y div 1000),
        digit (y div 100), digit (y div 10), digit y] = y"
      by (intro decimal6) linarith+
    from plus show ?thesis
      by (simp add: parseISO_def yearString_def pad6_def pad4_def pad3_def pad2_def slice_def
          len isDigit_digit d pf js_def)
  next
    case minus
    with yr have d: "decimal [digit (- y div 100000), digit (- y div 10000),
        digit (- y div 1000), digit (- y div 100), digit (- y div 10), digit (- y)] = - y"
      by (intro decimal6) linarith+
    from minus have a: "\<bar>y\<bar> = - y" by simp
    from minus show ?thesis
      by (simp add: parseISO_def yearString_def pad6_def pad4_def pad3_def pad2_def slice_def
          len isDigit_digit d pf js_def a)
  qed
  then show ?thesis by (simp only: iso)
qed

lemma length_isoString: "length (isoString t) \<noteq> 19"
  by (simp add: isoString_def yearString_def pad6_def pad4_def pad3_def pad2_def js_def)

lemma parseDate_isoString:
  "\<bar>t\<bar> \<le> 8640000000000000 \<Longrightarrow> parseDate tza (isoString t) = Num t"
  by (simp add: parseDate_def length_isoString parseISO_isoString)

section \<open>The loop of the weekdays cadence\<close>

text \<open>
  The loop where the local time of day of \<open>D\<close> exists on each day it steps to: it ends
  on the first of them that is neither Saturday nor Sunday, at that time of day.
\<close>

lemma step_exists:
  assumes l: "LocalTime h d = L"
    and ex: "localTimeExists h (L + msPerDay)"
    and rg: "\<bar>UTC h (L + msPerDay)\<bar> \<le> 8640000000000000"
  shows "setDate h (plus1 (getDate h (Num d))) (Num d) = Num (UTC h (L + msPerDay))"
    and "LocalTime h (UTC h (L + msPerDay)) = L + msPerDay"
  using assms by (simp_all add: setDate_next TimeClip_def localTimeExists_def)

lemma advanceWeekdays_exists:
  assumes k: "k = daysToWeekday (WeekDay (LocalTime h D))"
    and ex: "\<forall>j\<in>{1..k}. localTimeExists h (LocalTime h D + j * msPerDay) \<and>
               \<bar>UTC h (LocalTime h D + j * msPerDay)\<bar> \<le> 8640000000000000"
  shows "advanceWeekdays h (Num D) = Some (Num (UTC h (LocalTime h D + k * msPerDay)))"
proof -
  let ?L = "LocalTime h D"
  let ?w = "WeekDay ?L"
  let ?d = "\<lambda>j. UTC h (?L + j * msPerDay)"
  have wr: "0 \<le> ?w" "?w < 7" using WeekDay_range by simp_all
  have wd: "WeekDay (?L + j * msPerDay) = (?w + j) mod 7" for j
    by (rule WeekDay_add)
  have e: "localTimeExists h (?L + j * msPerDay)" "\<bar>?d j\<bar> \<le> 8640000000000000"
    if "1 \<le> j" "j \<le> k" for j
    using ex that by simp_all
  have s0: "setDate h (plus1 (getDate h (Num D))) (Num D) = Num (?d 1)"
      "LocalTime h (?d 1) = ?L + 1 * msPerDay" if "1 \<le> k"
    using step_exists[of h D ?L] e[of 1] that by simp_all
  have sj: "setDate h (plus1 (getDate h (Num (?d j)))) (Num (?d j)) = Num (?d (j + 1))"
      "LocalTime h (?d (j + 1)) = ?L + (j + 1) * msPerDay" if "1 \<le> j" "j + 1 \<le> k" for j
  proof -
    have lj: "LocalTime h (?d j) = ?L + j * msPerDay"
      using e(1)[of j] that by (simp add: localTimeExists_def)
    have a: "?L + j * msPerDay + msPerDay = ?L + (j + 1) * msPerDay"
      by (simp add: algebra_simps)
    from e[of "j + 1"] that
    have ex1: "localTimeExists h (?L + j * msPerDay + msPerDay)"
      and rg1: "\<bar>UTC h (?L + j * msPerDay + msPerDay)\<bar> \<le> 8640000000000000"
      by (simp_all only: a)
    from step_exists(1)[OF lj ex1 rg1]
    show "setDate h (plus1 (getDate h (Num (?d j)))) (Num (?d j)) = Num (?d (j + 1))"
      by (simp only: a)
    show "LocalTime h (?d (j + 1)) = ?L + (j + 1) * msPerDay"
      using e(1)[of "j + 1"] that by (simp add: localTimeExists_def)
  qed
  consider (fri) "?w = 5" | (sat) "?w = 6" | (other) "?w \<noteq> 5" "?w \<noteq> 6" by blast
  then show ?thesis
  proof cases
    case fri
    then have k3: "k = 3" by (simp add: k daysToWeekday_def)
    note t1 = s0[simplified k3, simplified]
    note t2 = sj[of 1, simplified k3, simplified]
    note t3 = sj[of 2, simplified k3, simplified]
    show ?thesis
      apply (subst advanceWeekdays.simps)
      apply (simp add: t1 k3 Let_def getDay_def includes06_def wd[of 1, simplified] fri)
      apply (subst advanceWeekdays.simps)
      apply (simp add: t2 k3 Let_def getDay_def includes06_def wd[of 2, simplified] fri)
      apply (subst advanceWeekdays.simps)
      apply (simp add: t3 k3 Let_def getDay_def includes06_def wd[of 3, simplified] fri)
      done
  next
    case sat
    then have k2: "k = 2" by (simp add: k daysToWeekday_def)
    note t1 = s0[simplified k2, simplified]
    note t2 = sj[of 1, simplified k2, simplified]
    show ?thesis
      apply (subst advanceWeekdays.simps)
      apply (simp add: t1 k2 Let_def getDay_def includes06_def wd[of 1, simplified] sat)
      apply (subst advanceWeekdays.simps)
      apply (simp add: t2 k2 Let_def getDay_def includes06_def wd[of 2, simplified] sat)
      done
  next
    case other
    then have k1: "k = 1" by (simp add: k daysToWeekday_def)
    note t1 = s0[simplified k1, simplified]
    have "(?w + 1) mod 7 \<noteq> 0" "(?w + 1) mod 7 \<noteq> 6" using wr other by presburger+
    then show ?thesis
      apply (subst advanceWeekdays.simps)
      apply (simp add: t1 k1 Let_def getDay_def includes06_def wd[of 1, simplified])
      done
  qed
qed


text \<open>Whatever the host's zone, a loop that ends does not end on a Saturday or Sunday.\<close>

lemma advanceWeekdays_weekday:
  assumes "advanceWeekdays h d = Some d'"
  shows "\<not> includes06 (getDay h d')"
proof (rule advanceWeekdays.raw_induct[where P = "\<lambda>h d d'. \<not> includes06 (getDay h d')",
      OF _ assms])
  fix loop h nextDate y
  assume "\<And>h d y. loop h d = Some y \<Longrightarrow> \<not> includes06 (getDay h y)"
    and "(let d = setDate h (plus1 (getDate h nextDate)) nextDate
          in if includes06 (getDay h d) then loop h d else Some d) = Some y"
  then show "\<not> includes06 (getDay h y)"
    by (auto simp: Let_def split: if_splits)
qed

lemma advanceWeekdays_Num:
  "advanceWeekdays h d = Some (Num D') \<Longrightarrow>
   WeekDay (LocalTime h D') \<noteq> 0 \<and> WeekDay (LocalTime h D') \<noteq> 6"
  by (drule advanceWeekdays_weekday) (simp add: includes06_def getDay_def)

text \<open>The day reached is the first after \<open>w\<close> that is neither Saturday nor Sunday.\<close>

lemma daysToWeekday_first:
  assumes "0 \<le> w" "w < 7"
  shows "1 \<le> daysToWeekday w"
    and "(w + daysToWeekday w) mod 7 \<noteq> 0" and "(w + daysToWeekday w) mod 7 \<noteq> 6"
    and "1 \<le> j \<Longrightarrow> j < daysToWeekday w \<Longrightarrow> (w + j) mod 7 = 0 \<or> (w + j) mod 7 = 6"
proof -
  show "1 \<le> daysToWeekday w" by (simp add: daysToWeekday_def)
  show "(w + daysToWeekday w) mod 7 \<noteq> 0" "(w + daysToWeekday w) mod 7 \<noteq> 6"
    using assms unfolding daysToWeekday_def by (simp_all; presburger)+
  show "(w + j) mod 7 = 0 \<or> (w + j) mod 7 = 6" if "1 \<le> j" "j < daysToWeekday w"
  proof (cases "w = 5")
    case True
    with that have "j = 1 \<or> j = 2" by (simp add: daysToWeekday_def) linarith
    with True show ?thesis by auto
  next
    case False
    with that have "w = 6 \<and> j = 1" by (auto simp: daysToWeekday_def split: if_splits)
    then show ?thesis by simp
  qed
qed

section \<open>One task of a sweep\<close>

lemma scanTask_not_eligible:
  "\<not> eligible h now t \<Longrightarrow> scanTask h soundReady now stamp t = Some ([], Inr t)"
  by (auto simp: scanTask_def eligible_def)


lemma scanTask_repeating:
  "eligible h now t \<Longrightarrow> repeating t \<Longrightarrow>
   scanTask h soundReady now stamp t =
     (case reschedule h (the (repeat t)) (Date_parse h (dateISO t)) of
        None \<Rightarrow> None
      | Some NaN \<Rightarrow> Some (alerts h soundReady t, Inl RangeError)
      | Some (Num D') \<Rightarrow>
          Some (alerts h soundReady t, Inr (t\<lparr>dateISO := isoString D', notifiedAt := None\<rparr>)))"
  by (auto simp: scanTask_def Let_def eligible_def repeating_def toISOString_def
      split: option.splits number.splits)

lemma eligible_due:
  "Date_parse h (dateISO t) = Num D \<Longrightarrow> eligible h now t \<longleftrightarrow> D \<le> now \<and> notSent t"
  by (simp add: eligible_def isDue_def ge_number_def)

lemma eligible_NaN: "Date_parse h (dateISO t) = NaN \<Longrightarrow> \<not> eligible h now t"
  by (simp add: eligible_def isDue_def ge_number_def)

lemma eligible_sent: "truthy (notifiedAt t) \<Longrightarrow> \<not> eligible h now t"
  by (simp add: eligible_def notSent_def)


lemma scanTask_frame:
  "scanTask h soundReady now stamp t = Some (fx, Inr t') \<Longrightarrow>
   id' t' = id' t \<and> title t' = title t \<and> repeat t' = repeat t \<and> completedAt t' = completedAt t"
  by (auto simp: scanTask_def Let_def split: if_splits option.splits sum.splits)

lemma scanTask_advanced:
  "scanTask h soundReady now stamp t = Some (fx, Inr t') \<Longrightarrow> dateISO t' \<noteq> dateISO t \<Longrightarrow>
   notifiedAt t' = None"
  by (auto simp: scanTask_def Let_def split: if_splits option.splits sum.splits)

lemma scanTask_repeating_clears:
  "scanTask h soundReady now stamp t = Some (fx, Inr t') \<Longrightarrow> repeating t \<Longrightarrow>
   eligible h now t \<Longrightarrow> notifiedAt t' = None"
  by (auto simp: scanTask_repeating split: option.splits number.splits)

lemma scanTask_keeps_unstamped:
  "scanTask h soundReady now stamp t = Some (fx, Inr t') \<Longrightarrow>
   \<not> repeating t \<or> notifiedAt t = None \<Longrightarrow> \<not> repeating t' \<or> notifiedAt t' = None"
proof (cases "eligible h now t")
  case True
  assume s: "scanTask h soundReady now stamp t = Some (fx, Inr t')"
  show ?thesis
  proof (cases "repeating t")
    case True
    with s \<open>eligible h now t\<close> show ?thesis by (simp add: scanTask_repeating_clears)
  next
    case False
    with s scanTask_frame[OF s] show ?thesis by (simp add: repeating_def)
  qed
next
  case False
  assume "scanTask h soundReady now stamp t = Some (fx, Inr t')"
    and "\<not> repeating t \<or> notifiedAt t = None"
  with False show ?thesis by (simp add: scanTask_not_eligible)
qed

lemma scanTask_completedAt:
  "scanTask h soundReady now stamp (t\<lparr>completedAt := c\<rparr>) =
   map_option (map_prod id (map_sum id (\<lambda>t'. t'\<lparr>completedAt := c\<rparr>)))
     (scanTask h soundReady now stamp t)"
  by (auto simp: scanTask_def Let_def isDue_def notSent_def alerts_def
      split: option.splits sum.splits)

section \<open>The sweep\<close>

lemma sweepFrom_nth:
  "sweepFrom h soundReady now clock i ts = Some (fx, Inr ts') \<Longrightarrow>
   length ts' = length ts \<and>
   (\<forall>j < length ts. \<exists>fxj.
      scanTask h soundReady now (clock (i + j)) (ts ! j) = Some (fxj, Inr (ts' ! j)))"
proof (induction ts arbitrary: i fx ts')
  case Nil
  then show ?case by simp
next
  case (Cons t ts)
  from Cons.prems obtain fx1 t1 fx2 ts2 where
    s1: "scanTask h soundReady now (clock i) t = Some (fx1, Inr t1)" and
    s2: "sweepFrom h soundReady now clock (Suc i) ts = Some (fx2, Inr ts2)" and
    r: "ts' = t1 # ts2"
    by (auto split: option.splits sum.splits prod.splits)
  from Cons.IH[OF s2] have len: "length ts2 = length ts" and
    nth: "\<And>j. j < length ts \<Longrightarrow>
      \<exists>fxj. scanTask h soundReady now (clock (Suc i + j)) (ts ! j) = Some (fxj, Inr (ts2 ! j))"
    by auto
  show ?case
  proof (intro conjI allI impI)
    show "length ts' = length (t # ts)" by (simp add: r len)
  next
    fix j
    assume "j < length (t # ts)"
    then show "\<exists>fxj. scanTask h soundReady now (clock (i + j)) ((t # ts) ! j) =
                 Some (fxj, Inr (ts' ! j))"
      using s1 nth[of "j - 1"] by (cases j) (auto simp: r)
  qed
qed

lemma sweepFrom_unchanged:
  "list_all (\<lambda>t. \<not> eligible h now t) ts \<Longrightarrow>
   sweepFrom h soundReady now clock i ts = Some ([], Inr ts)"
  by (induction ts arbitrary: i) (auto simp: scanTask_not_eligible)

lemma sweepFrom_noStamp:
  "sweepFrom h soundReady now clock i ts = Some (fx, Inr ts') \<Longrightarrow>
   noStampOnRepeating ts \<Longrightarrow> noStampOnRepeating ts'"
proof -
  assume s: "sweepFrom h soundReady now clock i ts = Some (fx, Inr ts')"
    and inv: "noStampOnRepeating ts"
  from sweepFrom_nth[OF s] have len: "length ts' = length ts" and
    nth: "\<And>j. j < length ts \<Longrightarrow>
      \<exists>fxj. scanTask h soundReady now (clock (i + j)) (ts ! j) = Some (fxj, Inr (ts' ! j))"
    by auto
  have "\<not> repeating (ts' ! j) \<or> notifiedAt (ts' ! j) = None" if "j < length ts'" for j
  proof -
    from that len have j: "j < length ts" by simp
    from inv j have "\<not> repeating (ts ! j) \<or> notifiedAt (ts ! j) = None"
      by (simp add: noStampOnRepeating_def list_all_length)
    with nth[OF j] show ?thesis by (auto dest: scanTask_keeps_unstamped)
  qed
  then show ?thesis by (simp add: noStampOnRepeating_def list_all_length)
qed

section \<open>A task over many ticks\<close>




section \<open>The next occurrence is later\<close>

lemma setDate_later:
  "stepsForward h \<Longrightarrow> setDate h (plus1 (getDate h (Num x))) (Num x) = Num x' \<Longrightarrow>
   x < x' \<and> \<bar>x'\<bar> \<le> 8640000000000000"
  by (auto simp: setDate_next TimeClip_def stepsForward_def split: if_splits)

lemma advanceWeekdays_later:
  assumes "advanceWeekdays h d = Some d'"
  shows "stepsForward h \<longrightarrow>
         (\<forall>x x'. d = Num x \<and> d' = Num x' \<longrightarrow> x < x' \<and> \<bar>x'\<bar> \<le> 8640000000000000)"
proof (rule advanceWeekdays.raw_induct[where P = "\<lambda>h d d'. stepsForward h \<longrightarrow>
      (\<forall>x x'. d = Num x \<and> d' = Num x' \<longrightarrow> x < x' \<and> \<bar>x'\<bar> \<le> 8640000000000000)",
      OF _ assms])
  fix loop h nextDate y
  assume ih: "\<And>h d y. loop h d = Some y \<Longrightarrow> stepsForward h \<longrightarrow>
      (\<forall>x x'. d = Num x \<and> y = Num x' \<longrightarrow> x < x' \<and> \<bar>x'\<bar> \<le> 8640000000000000)"
    and st: "(let d = setDate h (plus1 (getDate h nextDate)) nextDate
          in if includes06 (getDay h d) then loop h d else Some d) = Some y"
  show "stepsForward h \<longrightarrow>
      (\<forall>x x'. nextDate = Num x \<and> y = Num x' \<longrightarrow> x < x' \<and> \<bar>x'\<bar> \<le> 8640000000000000)"
  proof (intro impI allI)
    fix x x'
    assume f: "stepsForward h" and n: "nextDate = Num x \<and> y = Num x'"
    let ?d = "setDate h (plus1 (getDate h (Num x))) (Num x)"
    show "x < x' \<and> \<bar>x'\<bar> \<le> 8640000000000000"
    proof (cases ?d)
      case NaN
      with st n show ?thesis by (simp add: Let_def getDay_def includes06_def)
    next
      case (Num x1)
      from setDate_later[OF f Num] have 1: "x < x1" "\<bar>x1\<bar> \<le> 8640000000000000" by simp_all
      show ?thesis
      proof (cases "includes06 (getDay h (Num x1))")
        case True
        with st n Num have "loop h (Num x1) = Some (Num x')" by (simp add: Let_def)
        from ih[OF this] f have "x1 < x' \<and> \<bar>x'\<bar> \<le> 8640000000000000" by simp
        with 1 show ?thesis by simp
      next
        case False
        with st n Num have "x' = x1" by (simp add: Let_def)
        with 1 show ?thesis by simp
      qed
    qed
  qed
qed











lemma stepsForward_newYorkHost: "stepsForward newYorkHost"
  by (simp add: stepsForward_def newYorkHost_def newYorkTZA_def LocalTime_def UTC_def
      msPerDay_def)

lemma readsBack_newYorkHost: "readsBack newYorkHost"
  by (simp add: readsBack_def newYorkHost_def parseDate_isoString)

section \<open>Adding, completing and removing\<close>

lemma trim_empty_iff: "trim s = [] \<longleftrightarrow> list_all isWhiteSpace s"
proof
  assume "trim s = []"
  then have "\<forall>x \<in> set (dropWhile isWhiteSpace s). isWhiteSpace x"
    by (simp add: trim_def dropWhile_eq_Nil_conv)
  then have "dropWhile isWhiteSpace s = []"
    using hd_dropWhile[of isWhiteSpace s] hd_in_set[of "dropWhile isWhiteSpace s"] by blast
  then show "list_all isWhiteSpace s"
    by (simp add: dropWhile_eq_Nil_conv list_all_iff)
next
  assume "list_all isWhiteSpace s"
  then have "dropWhile isWhiteSpace s = []"
    by (simp add: dropWhile_eq_Nil_conv list_all_iff)
  then show "trim s = []" unfolding trim_def by (simp only: rev.simps dropWhile.simps)
qed

lemma addTask_blank:
  "list_all isWhiteSpace title' \<Longrightarrow>
   addTask h uuid title' date' time' repeat' prev = Inr (prev, title')"
  by (simp add: addTask_def trim_empty_iff)

lemma addTask_added:
  "\<not> list_all isWhiteSpace title' \<Longrightarrow>
   Date_parse h (date' @ js ''T'' @ time' @ js '':00'') = Num D \<Longrightarrow>
   addTask h uuid title' date' time' repeat' prev =
     Inr (\<lparr>id' = uuid, title = trim title', dateISO = isoString D, notifiedAt = None,
            completedAt = None, repeat = Some repeat'\<rparr> # prev, [])"
  by (simp add: addTask_def trim_empty_iff toISOString_def)

lemma addTask_invalid:
  "\<not> list_all isWhiteSpace title' \<Longrightarrow>
   Date_parse h (date' @ js ''T'' @ time' @ js '':00'') = NaN \<Longrightarrow>
   addTask h uuid title' date' time' repeat' prev = Inl RangeError"
  by (simp add: addTask_def trim_empty_iff toISOString_def)

lemma addTask_cases:
  "addTask h uuid title' date' time' repeat' prev = Inr (ts', x) \<Longrightarrow>
   ts' = prev \<or>
   (\<exists>new. ts' = new # prev \<and> notifiedAt new = None \<and> completedAt new = None \<and>
          id' new = uuid)"
  by (auto simp: addTask_def split: if_splits sum.splits)

lemma length_markDoneFrom: "length (markDoneFrom clock i ident ts) = length ts"
  by (induction ts arbitrary: i) simp_all

lemma markDoneFrom_nth:
  "j < length ts \<Longrightarrow>
   markDoneFrom clock i ident ts ! j =
     (if id' (ts ! j) = ident then (ts ! j)\<lparr>completedAt := Some (isoString (clock (i + j)))\<rparr>
      else ts ! j)"
proof (induction ts arbitrary: i j)
  case Nil
  then show ?case by simp
next
  case (Cons t ts)
  show ?case
  proof (cases j)
    case 0
    then show ?thesis by simp
  next
    case (Suc j')
    with Cons.prems have "j' < length ts" by simp
    from Cons.IH[OF this, of "Suc i"] Suc show ?thesis by simp
  qed
qed

lemma markDoneFrom_absent: "ident \<notin> id' ` set ts \<Longrightarrow> markDoneFrom clock i ident ts = ts"
  by (induction ts arbitrary: i) auto

lemma markDoneFrom_twice:
  "markDoneFrom c2 i ident (markDoneFrom c1 i ident ts) = markDoneFrom c2 i ident ts"
  by (induction ts arbitrary: i) auto

lemma markDoneFrom_noStamp:
  "noStampOnRepeating ts \<Longrightarrow> noStampOnRepeating (markDoneFrom clock i ident ts)"
  by (induction ts arbitrary: i) (auto simp: noStampOnRepeating_def repeating_def)

lemma removeTask_noStamp: "noStampOnRepeating ts \<Longrightarrow> noStampOnRepeating (removeTask ident ts)"
  by (induction ts) (auto simp: noStampOnRepeating_def removeTask_def)

lemma addTask_noStamp:
  "addTask h uuid title' date' time' repeat' prev = Inr (ts', x) \<Longrightarrow>
   noStampOnRepeating prev \<Longrightarrow> noStampOnRepeating ts'"
  by (auto simp: noStampOnRepeating_def dest!: addTask_cases)

lemma reachable_noStamp: "reachable ts \<Longrightarrow> noStampOnRepeating ts"
proof (induction rule: reachable.induct)
  case initial
  show ?case by (simp add: noStampOnRepeating_def)
next
  case (added ts h uuid title' date' time' repeat' ts' x)
  then show ?case by (auto dest: addTask_noStamp)
next
  case (completed ts clock ident)
  then show ?case by (simp add: markDone_def markDoneFrom_noStamp)
next
  case (removed ts ident)
  then show ?case by (simp add: removeTask_noStamp)
next
  case (ticked ts h soundReady now clock fx ts')
  then show ?case by (auto simp: sweep_def dest: sweepFrom_noStamp)
qed

section \<open>Rescheduling\<close>

lemma scanTask_daily:
  assumes "Date_parse h (dateISO t) = Num D" "D \<le> now" "notSent t" "repeat t = Some Daily"
    and "\<bar>UTC h (LocalTime h D + msPerDay)\<bar> \<le> 8640000000000000"
  shows "scanTask h soundReady now stamp t =
           Some (alerts h soundReady t,
                 Inr (t\<lparr>dateISO := isoString (UTC h (LocalTime h D + msPerDay)),
                        notifiedAt := None\<rparr>))"
proof -
  have e: "eligible h now t" using assms by (simp add: eligible_due)
  have r: "repeating t" using assms by (simp add: repeating_def)
  show ?thesis
    using assms by (simp add: scanTask_repeating[OF e r] reschedule_def setDate_next TimeClip_def)
qed

lemma scanTask_daily_RangeError:
  assumes "Date_parse h (dateISO t) = Num D" "D \<le> now" "notSent t" "repeat t = Some Daily"
    and "8640000000000000 < \<bar>UTC h (LocalTime h D + msPerDay)\<bar>"
  shows "scanTask h soundReady now stamp t = Some (alerts h soundReady t, Inl RangeError)"
proof -
  have e: "eligible h now t" using assms by (simp add: eligible_due)
  have r: "repeating t" using assms by (simp add: repeating_def)
  show ?thesis
    using assms by (simp add: scanTask_repeating[OF e r] reschedule_def setDate_next TimeClip_def)
qed

lemma scanTask_weekdays_exists:
  assumes "Date_parse h (dateISO t) = Num D" "D \<le> now" "notSent t" "repeat t = Some Weekdays"
    and "k = daysToWeekday (WeekDay (LocalTime h D))"
    and "\<forall>j\<in>{1..k}. localTimeExists h (LocalTime h D + j * msPerDay) \<and>
               \<bar>UTC h (LocalTime h D + j * msPerDay)\<bar> \<le> 8640000000000000"
  shows "scanTask h soundReady now stamp t =
           Some (alerts h soundReady t,
                 Inr (t\<lparr>dateISO := isoString (UTC h (LocalTime h D + k * msPerDay)),
                        notifiedAt := None\<rparr>))"
proof -
  have e: "eligible h now t" using assms by (simp add: eligible_due)
  have r: "repeating t" using assms by (simp add: repeating_def)
  have "advanceWeekdays h (Num D) = Some (Num (UTC h (LocalTime h D + k * msPerDay)))"
    using assms(5,6) by (rule advanceWeekdays_exists)
  then show ?thesis
    using assms(1,4) by (simp add: scanTask_repeating[OF e r] reschedule_def)
qed


section \<open>Values of the sample data\<close>

lemma length_js: "length (js s) = length s"
  by (simp add: js_def)

lemma js_append: "js a @ js b = js (a @ b)"
  by (simp add: js_def)

lemma parseISO_jan5: "parseISO (js ''2024-01-05T09:00:00.000Z'') = Num 1704445200000"
  by code_simp

lemma parse_jan5: "parseDate tza (js ''2024-01-05T09:00:00.000Z'') = Num 1704445200000"
  by (simp add: parseDate_def length_js parseISO_jan5)

lemma parse_form_jan5:
  "parseDate (\<lambda>t isUTC. 0) (js ''2024-01-05'' @ js ''T'' @ js ''09:00'' @ js '':00'') =
   Num 1704445200000"
  by (simp add: parseDate_def length_js js_append parseISO_jan5 TimeClip_def)

lemma trim_sample: "trim (js '' Take pill '') = js ''Take pill''"
  by code_simp

lemma blank_sample: "list_all isWhiteSpace (js ''   '')" "\<not> list_all isWhiteSpace (js '' Take pill '')"
  by code_simp+

lemma iso_stamp: "isoString 1704445205000 = js ''2024-01-05T09:00:05.000Z''"
  by code_simp

lemma iso_jan5: "isoString 1704445200000 = js ''2024-01-05T09:00:00.000Z''"
  by code_simp

lemma iso_jan6: "isoString 1704531600000 = js ''2024-01-06T09:00:00.000Z''"
  by code_simp

lemma iso_jan8: "isoString 1704704400000 = js ''2024-01-08T09:00:00.000Z''"
  by code_simp





lemma parse_form_empty:
  "parseDate (\<lambda>t isUTC. 0) (js [] @ js ''T'' @ js ''09:00'' @ js '':00'') = NaN"
  by (simp add: parseDate_def parseISO_def length_js js_append)


lemma utcHost_simps:
  "Date_parse utcHost = parseDate (\<lambda>t isUTC. 0)" "LocalTZA utcHost t u = 0" "notificationGranted utcHost"
  "LocalTime utcHost t = t" "UTC utcHost t = t"
  by (simp_all add: utcHost_def LocalTime_def UTC_def)

lemma sample_simps:
  "id' sample = js ''a1''" "title sample = js ''Take pill''"
  "dateISO sample = js ''2024-01-05T09:00:00.000Z''" "notifiedAt sample = None"
  "completedAt sample = None" "repeat sample = None"
  by (simp_all add: sample_def)


section \<open>The claims about the scanner\<close>



text \<open>
  Claim C9. A task that is not eligible in a sweep, because its due timestamp is still
  ahead of the clock (or is no date at all) or because its notified timestamp is set,
  comes out of the sweep as it went in, with no alert: no field is changed, in the task
  alone and at its place in the collection. A sweep over a collection with no eligible
  task returns the collection and fires nothing.
\<close>

theorem not_eligible_unchanged:
  assumes "(Date_parse h (dateISO t) = Num D \<and> now < D) \<or> Date_parse h (dateISO t) = NaN \<or>
           truthy (notifiedAt t)"
  shows "scanTask h soundReady now stamp t = Some ([], Inr t) \<and>
         (\<forall>clock ts fx ts' j.
            sweep h soundReady now clock ts = Some (fx, Inr ts') \<and> j < length ts \<and> ts ! j = t
            \<longrightarrow> ts' ! j = t) \<and>
         (\<forall>clock ts. list_all (\<lambda>t. \<not> eligible h now t) ts \<longrightarrow>
            sweep h soundReady now clock ts = Some ([], Inr ts))"
proof -
  from assms have ne: "\<not> eligible h now t"
    by (auto simp: eligible_due eligible_sent eligible_NaN)
  then have s: "scanTask h soundReady now stamp t = Some ([], Inr t)" for stamp
    by (rule scanTask_not_eligible)
  have "ts' ! j = t"
    if "sweep h soundReady now clock ts = Some (fx, Inr ts')" "j < length ts" "ts ! j = t"
    for clock ts fx ts' j
  proof -
    from that(1) have "sweepFrom h soundReady now clock 0 ts = Some (fx, Inr ts')"
      by (simp add: sweep_def)
    from sweepFrom_nth[OF this] that(2,3) obtain fxj where
      "scanTask h soundReady now (clock (0 + j)) t = Some (fxj, Inr (ts' ! j))"
      by auto
    with s show ?thesis by simp
  qed
  moreover have "sweep h soundReady now clock ts = Some ([], Inr ts)"
    if "list_all (\<lambda>t. \<not> eligible h now t) ts" for clock ts
    using that by (simp add: sweep_def sweepFrom_unchanged)
  ultimately show ?thesis using s by blast
qed

theorem not_eligible_unchanged_witness:
  "scanTask utcHost True 1704441600000 1704441600000 sample = Some ([], Inr sample) \<and>
   scanTask utcHost True 1704445210000 1704445210000
       (sample\<lparr>notifiedAt := Some (js ''2024-01-05T09:00:05.000Z'')\<rparr>) =
     Some ([], Inr (sample\<lparr>notifiedAt := Some (js ''2024-01-05T09:00:05.000Z'')\<rparr>)) \<and>
   scanTask utcHost True 1704445210000 1704445210000 (sample\<lparr>dateISO := js ''tomorrow''\<rparr>) =
     Some ([], Inr (sample\<lparr>dateISO := js ''tomorrow''\<rparr>))"
proof -
  have 1: "Date_parse utcHost (dateISO sample) = Num 1704445200000 \<and>
           (1704441600000::int) < 1704445200000"
    by (simp add: utcHost_simps sample_simps parse_jan5)
  have 2: "truthy (notifiedAt (sample\<lparr>notifiedAt := Some (js ''2024-01-05T09:00:05.000Z'')\<rparr>))"
    by (simp add: truthy_def js_def)
  have "parseISO (js ''tomorrow'') = NaN" by code_simp
  then have 3: "Date_parse utcHost (dateISO (sample\<lparr>dateISO := js ''tomorrow''\<rparr>)) = NaN"
    by (simp add: utcHost_simps parseDate_def length_js)
  show ?thesis
    using not_eligible_unchanged[of utcHost sample 1704445200000 1704441600000 True 1704441600000]
      not_eligible_unchanged[of utcHost
        "sample\<lparr>notifiedAt := Some (js ''2024-01-05T09:00:05.000Z'')\<rparr>" 0 1704445210000
        True 1704445210000]
      not_eligible_unchanged[of utcHost "sample\<lparr>dateISO := js ''tomorrow''\<rparr>" 0 1704445210000
        True 1704445210000] 1 2 3
    by blast
qed
text \<open>
  Claim C10. A tick changes nothing of a task but its due timestamp and its notified
  timestamp: identifier, title, cadence and completed timestamp stay. Whether the task
  is eligible does not depend on the completed timestamp, and neither does what the
  tick does to it: a completed task is alerted and rescheduled as the same task not
  completed would be.
\<close>

theorem scan_frame:
  "(scanTask h soundReady now stamp t = Some (fx, Inr t') \<longrightarrow>
      id' t' = id' t \<and> title t' = title t \<and> repeat t' = repeat t \<and>
      completedAt t' = completedAt t) \<and>
   (eligible h now (t\<lparr>completedAt := c\<rparr>) \<longleftrightarrow> eligible h now t) \<and>
   scanTask h soundReady now stamp (t\<lparr>completedAt := c\<rparr>) =
     map_option (map_prod id (map_sum id (\<lambda>t'. t'\<lparr>completedAt := c\<rparr>)))
       (scanTask h soundReady now stamp t)"
  using scanTask_frame[of h soundReady now stamp t fx t']
    scanTask_completedAt[where h = h and soundReady = soundReady and now = now and
      stamp = stamp and t = t and c = c]
  by (simp add: eligible_def isDue_def notSent_def)

theorem scan_frame_witness:
  "scanTask utcHost True 1704445205000 1704445205000
       (sample\<lparr>completedAt := Some (js ''2024-01-05T08:00:00.000Z''), repeat := Some Daily\<rparr>) =
     Some ([Notification (js ''To-Do Reminder'') (js ''Take pill ? due now''), Beep 1600],
           Inr (sample\<lparr>dateISO := js ''2024-01-06T09:00:00.000Z'',
                        completedAt := Some (js ''2024-01-05T08:00:00.000Z''),
                        repeat := Some Daily\<rparr>))"
proof -
  let ?t = "sample\<lparr>repeat := Some Daily\<rparr>"
  have "scanTask utcHost True 1704445205000 1704445205000 ?t =
      Some (alerts utcHost True ?t,
            Inr (?t\<lparr>dateISO := isoString (UTC utcHost (LocalTime utcHost 1704445200000 + msPerDay)),
                   notifiedAt := None\<rparr>))"
    by (rule scanTask_daily)
       (simp_all add: utcHost_simps sample_simps parse_jan5 notSent_def truthy_def msPerDay_def)
  then have "scanTask utcHost True 1704445205000 1704445205000 ?t =
      Some ([Notification (js ''To-Do Reminder'') (js ''Take pill ? due now''), Beep 1600],
            Inr (?t\<lparr>dateISO := js ''2024-01-06T09:00:00.000Z''\<rparr>))"
    by (simp add: utcHost_simps msPerDay_def iso_jan6 alerts_def sample_simps js_def sample_def)
  with scan_frame[of utcHost True 1704445205000 1704445205000 ?t _ _
      "Some (js ''2024-01-05T08:00:00.000Z'')"]
  show ?thesis by (simp add: sample_def)
qed

text \<open>
  Claim C4. In one step of a tick on one task, a due timestamp that is advanced comes
  with the notified timestamp cleared, and a repeating task that is alerted always
  leaves with it cleared. A tick therefore keeps the collection free of repeating tasks
  that carry a notified timestamp, and so do adding, completing and removing: no
  collection reached from the empty one holds such a task.
\<close>

theorem advance_clears_notified:
  "(scanTask h soundReady now stamp t = Some (fx, Inr t') \<and> dateISO t' \<noteq> dateISO t \<longrightarrow>
      notifiedAt t' = None) \<and>
   (scanTask h soundReady now stamp t = Some (fx, Inr t') \<and> repeating t \<and> eligible h now t \<longrightarrow>
      notifiedAt t' = None) \<and>
   (sweep h soundReady now clock ts = Some (fxs, Inr ts') \<and> noStampOnRepeating ts \<longrightarrow>
      noStampOnRepeating ts') \<and>
   (reachable ts \<longrightarrow> noStampOnRepeating ts)"
proof (intro conjI impI)
  assume "scanTask h soundReady now stamp t = Some (fx, Inr t') \<and> dateISO t' \<noteq> dateISO t"
  then show "notifiedAt t' = None" by (auto dest: scanTask_advanced)
next
  assume "scanTask h soundReady now stamp t = Some (fx, Inr t') \<and> repeating t \<and> eligible h now t"
  then show "notifiedAt t' = None" by (auto dest: scanTask_repeating_clears)
next
  assume "sweep h soundReady now clock ts = Some (fxs, Inr ts') \<and> noStampOnRepeating ts"
  then show "noStampOnRepeating ts'" by (auto simp: sweep_def dest: sweepFrom_noStamp)
next
  assume "reachable ts"
  then show "noStampOnRepeating ts" by (rule reachable_noStamp)
qed

theorem advance_clears_notified_witness:
  "scanTask utcHost True 1704445205000 1704445205000 (sample\<lparr>repeat := Some Daily\<rparr>) =
     Some ([Notification (js ''To-Do Reminder'') (js ''Take pill ? due now''), Beep 1600],
           Inr (sample\<lparr>dateISO := js ''2024-01-06T09:00:00.000Z'', repeat := Some Daily\<rparr>)) \<and>
   notifiedAt (sample\<lparr>dateISO := js ''2024-01-06T09:00:00.000Z'', repeat := Some Daily\<rparr>) = None \<and>
   reachable [sample\<lparr>dateISO := js ''2024-01-06T09:00:00.000Z'', repeat := Some Daily\<rparr>] \<and>
   noStampOnRepeating [sample\<lparr>dateISO := js ''2024-01-06T09:00:00.000Z'', repeat := Some Daily\<rparr>]"
proof -
  let ?t = "sample\<lparr>repeat := Some Daily\<rparr>"
  let ?t' = "sample\<lparr>dateISO := js ''2024-01-06T09:00:00.000Z'', repeat := Some Daily\<rparr>"
  let ?fx = "[Notification (js ''To-Do Reminder'') (js ''Take pill ? due now''), Beep 1600]"
  have "scanTask utcHost True 1704445205000 1704445205000 ?t =
      Some (alerts utcHost True ?t,
            Inr (?t\<lparr>dateISO := isoString (UTC utcHost (LocalTime utcHost 1704445200000 + msPerDay)),
                   notifiedAt := None\<rparr>))"
    by (rule scanTask_daily)
       (simp_all add: utcHost_simps sample_simps parse_jan5 notSent_def truthy_def msPerDay_def)
  then have s: "scanTask utcHost True 1704445205000 1704445205000 ?t = Some (?fx, Inr ?t')"
    by (simp add: utcHost_simps msPerDay_def iso_jan6 alerts_def sample_simps js_def sample_def)
  have e: "eligible utcHost 1704445205000 ?t" "repeating ?t"
    by (simp_all add: eligible_def isDue_def notSent_def truthy_def repeating_def utcHost_simps
        sample_simps parse_jan5 ge_number_def)
  have a: "addTask utcHost (js ''a1'') (js '' Take pill '') (js ''2024-01-05'') (js ''09:00'')
             Daily [] = Inr ([?t], [])"
    using addTask_added[of "js '' Take pill ''" utcHost "js ''2024-01-05''" "js ''09:00''"
        1704445200000 "js ''a1''" Daily "[]"]
    by (simp add: blank_sample utcHost_simps parse_form_jan5 trim_sample iso_jan5 sample_def)
  have r0: "reachable [?t]"
    by (rule reachable.added[OF reachable.initial a])
  have sw: "sweep utcHost True 1704445205000 (\<lambda>i. 1704445205000) [?t] = Some (?fx, Inr [?t'])"
    by (simp add: sweep_def s)
  have r: "reachable [?t']"
    by (rule reachable.ticked[OF r0 sw])
  from advance_clears_notified[of utcHost True 1704445205000 1704445205000 ?t ?fx ?t' _ "[?t]"
      _ "[?t']"] s e
  have "notifiedAt ?t' = None" by blast
  moreover from advance_clears_notified[where ts = "[?t']"] r
  have "noStampOnRepeating [?t']" by blast
  ultimately show ?thesis using s r by simp
qed

section \<open>The claims about rescheduling\<close>

lemma newYorkHost_simps:
  "Date_parse newYorkHost = parseDate newYorkTZA" "LocalTZA newYorkHost = newYorkTZA"
  "notificationGranted newYorkHost"
  by (simp_all add: newYorkHost_def)

lemma parseISO_mar8: "parseISO (js ''2024-03-08T07:30:00.000Z'') = Num 1709883000000"
  by code_simp

lemma parseISO_mar9: "parseISO (js ''2024-03-09T07:30:00.000Z'') = Num 1709969400000"
  by code_simp

lemma parseISO_mar9_14: "parseISO (js ''2024-03-09T14:00:00.000Z'') = Num 1709992800000"
  by code_simp

lemma parseISO_mar10: "parseISO (js ''2024-03-10T07:30:00.000Z'') = Num 1710055800000"
  by code_simp

lemma parseISO_mar11: "parseISO (js ''2024-03-11T07:30:00.000Z'') = Num 1710142200000"
  by code_simp

lemma iso_mar10: "isoString 1710055800000 = js ''2024-03-10T07:30:00.000Z''"
  by code_simp

lemma iso_mar10_13: "isoString 1710075600000 = js ''2024-03-10T13:00:00.000Z''"
  by code_simp

lemma iso_mar10_14: "isoString 1710079200000 = js ''2024-03-10T14:00:00.000Z''"
  by code_simp

lemma iso_mar11: "isoString 1710142200000 = js ''2024-03-11T07:30:00.000Z''"
  by code_simp

lemma parse_24: "length s = 24 \<Longrightarrow> parseDate tza (js s) = parseISO (js s)"
  by (simp add: parseDate_def length_js)

text \<open>The loop from Friday 2024-03-08, 02:30 in New York, over the night of the change.\<close>

lemma advanceWeekdays_newYork:
  "advanceWeekdays newYorkHost (Num 1709883000000) = Some (Num 1710142200000)"
  apply (subst advanceWeekdays.simps)
  apply (simp add: setDate_next Let_def getDay_def includes06_def LocalTime_def UTC_def
      TimeClip_def newYorkHost_simps newYorkTZA_def msPerDay_def WeekDay_def Day_def)
  apply (subst advanceWeekdays.simps)
  apply (simp add: setDate_next Let_def getDay_def includes06_def LocalTime_def UTC_def
      TimeClip_def newYorkHost_simps newYorkTZA_def msPerDay_def WeekDay_def Day_def)
  apply (subst advanceWeekdays.simps)
  apply (simp add: setDate_next Let_def getDay_def includes06_def LocalTime_def UTC_def
      TimeClip_def newYorkHost_simps newYorkTZA_def msPerDay_def WeekDay_def Day_def)
  done

lemma parseISO_mar8_14: "parseISO (js ''2024-03-08T14:00:00.000Z'') = Num 1709906400000"
  by code_simp

lemma iso_mar11_13: "isoString 1710162000000 = js ''2024-03-11T13:00:00.000Z''"
  by code_simp

text \<open>
  In New York 09:00 exists on each of the three days after Friday 2024-03-08, the
  Sunday of the change among them.
\<close>

lemma localTimeExists_newYork:
  "\<forall>j\<in>{1..3}.
     localTimeExists newYorkHost (LocalTime newYorkHost 1709906400000 + j * msPerDay) \<and>
     \<bar>UTC newYorkHost (LocalTime newYorkHost 1709906400000 + j * msPerDay)\<bar>
       \<le> 8640000000000000"
proof
  fix j :: int
  assume "j \<in> {1..3}"
  then have "j = 1 \<or> j = 2 \<or> j = 3" by auto
  then show
    "localTimeExists newYorkHost (LocalTime newYorkHost 1709906400000 + j * msPerDay) \<and>
     \<bar>UTC newYorkHost (LocalTime newYorkHost 1709906400000 + j * msPerDay)\<bar>
       \<le> 8640000000000000"
    by (auto simp: localTimeExists_def LocalTime_def UTC_def newYorkHost_simps newYorkTZA_def
        msPerDay_def)
qed

text \<open>
  Claim C2, as the program has it. A \<open>weekdays\<close> task alerted at its due timestamp \<open>D\<close>
  and rescheduled has its notified timestamp cleared and is due next on a local day
  that is neither Saturday nor Sunday, whatever the host's zone, and after \<open>D\<close> on a
  host that steps forward. When the local time of day of \<open>D\<close> exists on each of the
  \<open>k\<close> days that follow, \<open>k\<close> being three from a Friday, two from a Saturday and one
  otherwise in local time, and those dates are in the range of \<open>Date\<close>, the task is
  rescheduled and is due next at \<open>D'\<close>, the instant of that local time \<open>k\<close> days on:
  on the first local calendar day after \<open>D\<close> that is neither Saturday nor Sunday, at
  least one day on, at the local time of day of \<open>D\<close>. Where the offset applied to that
  local time is the offset at \<open>D\<close>, \<open>D'\<close> is \<open>D\<close> plus \<open>k\<close> times 24 hours.
\<close>

theorem weekdays_next_due:
  assumes "Date_parse h (dateISO t) = Num D" "D \<le> now" "notSent t" "repeat t = Some Weekdays"
  shows "(\<forall>fx t'. scanTask h soundReady now stamp t = Some (fx, Inr t') \<longrightarrow>
            fx = alerts h soundReady t \<and> notifiedAt t' = None \<and>
            (\<exists>D'. dateISO t' = isoString D' \<and>
                  WeekDay (LocalTime h D') \<noteq> 0 \<and> WeekDay (LocalTime h D') \<noteq> 6 \<and>
                  (stepsForward h \<longrightarrow> D < D'))) \<and>
         (k = daysToWeekday (WeekDay (LocalTime h D)) \<and>
          D' = UTC h (LocalTime h D + k * msPerDay) \<and>
          (\<forall>j\<in>{1..k}. localTimeExists h (LocalTime h D + j * msPerDay) \<and>
                      \<bar>UTC h (LocalTime h D + j * msPerDay)\<bar> \<le> 8640000000000000) \<longrightarrow>
            scanTask h soundReady now stamp t =
              Some (alerts h soundReady t,
                    Inr (t\<lparr>dateISO := isoString D', notifiedAt := None\<rparr>)) \<and>
            1 \<le> k \<and>
            Day (LocalTime h D') = Day (LocalTime h D) + k \<and>
            TimeWithinDay (LocalTime h D') = TimeWithinDay (LocalTime h D) \<and>
            WeekDay (LocalTime h D') \<noteq> 0 \<and> WeekDay (LocalTime h D') \<noteq> 6 \<and>
            (\<forall>j. 1 \<le> j \<and> j < k \<longrightarrow>
               WeekDay (LocalTime h D + j * msPerDay) = 0 \<or>
               WeekDay (LocalTime h D + j * msPerDay) = 6) \<and>
            (LocalTZA h (LocalTime h D + k * msPerDay) False = LocalTZA h D True \<longrightarrow>
               D' = D + k * msPerDay))"
proof (intro conjI allI impI)
  fix fx t'
  assume s: "scanTask h soundReady now stamp t = Some (fx, Inr t')"
  have e: "eligible h now t" using assms by (simp add: eligible_due)
  have r: "repeating t" using assms by (simp add: repeating_def)
  from s obtain D' where
    a: "advanceWeekdays h (Num D) = Some (Num D')" and
    f: "fx = alerts h soundReady t" and
    t': "t' = t\<lparr>dateISO := isoString D', notifiedAt := None\<rparr>"
    using assms(1,4)
    by (auto simp: scanTask_repeating[OF e r] reschedule_def split: option.splits number.splits)
  show "fx = alerts h soundReady t" by (rule f)
  show "notifiedAt t' = None" by (simp add: t')
  show "\<exists>D'. dateISO t' = isoString D' \<and>
      WeekDay (LocalTime h D') \<noteq> 0 \<and> WeekDay (LocalTime h D') \<noteq> 6 \<and>
      (stepsForward h \<longrightarrow> D < D')"
    using advanceWeekdays_Num[OF a] advanceWeekdays_later[OF a] by (auto simp: t')
next
  assume st: "k = daysToWeekday (WeekDay (LocalTime h D)) \<and>
    D' = UTC h (LocalTime h D + k * msPerDay) \<and>
    (\<forall>j\<in>{1..k}. localTimeExists h (LocalTime h D + j * msPerDay) \<and>
                \<bar>UTC h (LocalTime h D + j * msPerDay)\<bar> \<le> 8640000000000000)"
  let ?w = "WeekDay (LocalTime h D)"
  have w: "0 \<le> ?w" "?w < 7" using WeekDay_range by simp_all
  note first = daysToWeekday_first[OF w]
  from st have kd: "k = daysToWeekday ?w" by (rule conjunct1)
  from st have D': "D' = UTC h (LocalTime h D + k * msPerDay)" by blast
  from st have ex: "\<forall>j\<in>{1..k}. localTimeExists h (LocalTime h D + j * msPerDay) \<and>
                \<bar>UTC h (LocalTime h D + j * msPerDay)\<bar> \<le> 8640000000000000" by blast
  have k1: "1 \<le> k" using first(1) kd by simp
  then have "localTimeExists h (LocalTime h D + k * msPerDay)" using ex by simp
  then have lt: "LocalTime h D' = LocalTime h D + k * msPerDay"
    by (simp only: D' localTimeExists_def)
  show "scanTask h soundReady now stamp t =
      Some (alerts h soundReady t, Inr (t\<lparr>dateISO := isoString D', notifiedAt := None\<rparr>))"
    unfolding D' using assms kd ex by (rule scanTask_weekdays_exists)
  show "1 \<le> k" by (rule k1)
  show "Day (LocalTime h D') = Day (LocalTime h D) + k"
    by (simp only: lt Day_add)
  show "TimeWithinDay (LocalTime h D') = TimeWithinDay (LocalTime h D)"
    by (simp only: lt TimeWithinDay_add)
  have "WeekDay (LocalTime h D') = (?w + daysToWeekday ?w) mod 7"
    unfolding lt WeekDay_add by (simp only: kd[symmetric])
  with first(2,3)
  show "WeekDay (LocalTime h D') \<noteq> 0" "WeekDay (LocalTime h D') \<noteq> 6"
    by simp_all
  show "D' = D + k * msPerDay"
    if "LocalTZA h (LocalTime h D + k * msPerDay) False = LocalTZA h D True"
    using that by (simp add: D' UTC_def LocalTime_def)
next
  fix j
  assume st: "k = daysToWeekday (WeekDay (LocalTime h D)) \<and>
    D' = UTC h (LocalTime h D + k * msPerDay) \<and>
    (\<forall>j\<in>{1..k}. localTimeExists h (LocalTime h D + j * msPerDay) \<and>
                \<bar>UTC h (LocalTime h D + j * msPerDay)\<bar> \<le> 8640000000000000)"
    and j: "1 \<le> j \<and> j < k"
  have w: "0 \<le> WeekDay (LocalTime h D)" "WeekDay (LocalTime h D) < 7"
    using WeekDay_range by simp_all
  from st have kd: "k = daysToWeekday (WeekDay (LocalTime h D))" by (rule conjunct1)
  from j have "1 \<le> j" "j < daysToWeekday (WeekDay (LocalTime h D))"
    unfolding kd[symmetric] by blast+
  from daysToWeekday_first(4)[OF w this]
  show "WeekDay (LocalTime h D + j * msPerDay) = 0 \<or>
      WeekDay (LocalTime h D + j * msPerDay) = 6"
    by (simp only: WeekDay_add)
qed

theorem weekdays_next_due_witness:
  "scanTask utcHost True 1704445205000 1704445205000 (sample\<lparr>repeat := Some Weekdays\<rparr>) =
     Some ([Notification (js ''To-Do Reminder'') (js ''Take pill ? due now''), Beep 1600],
           Inr (sample\<lparr>dateISO := js ''2024-01-08T09:00:00.000Z'', repeat := Some Weekdays\<rparr>)) \<and>
   WeekDay (LocalTime utcHost 1704445200000) = 5 \<and>
   WeekDay (LocalTime utcHost 1704704400000) = 1 \<and>
   scanTask newYorkHost True 1709906400000 1709906400000
       (sample\<lparr>dateISO := js ''2024-03-08T14:00:00.000Z'', repeat := Some Weekdays\<rparr>) =
     Some ([Notification (js ''To-Do Reminder'') (js ''Take pill ? due now''), Beep 1600],
           Inr (sample\<lparr>dateISO := js ''2024-03-11T13:00:00.000Z'', repeat := Some Weekdays\<rparr>)) \<and>
   Day (LocalTime newYorkHost 1710162000000) = Day (LocalTime newYorkHost 1709906400000) + 3 \<and>
   TimeWithinDay (LocalTime newYorkHost 1709906400000) = 32400000 \<and>
   TimeWithinDay (LocalTime newYorkHost 1710162000000) = 32400000"
proof -
  let ?t = "sample\<lparr>repeat := Some Weekdays\<rparr>"
  let ?u = "sample\<lparr>dateISO := js ''2024-03-08T14:00:00.000Z'', repeat := Some Weekdays\<rparr>"
  have w: "WeekDay (LocalTime utcHost 1704445200000) = 5"
      "WeekDay (LocalTime utcHost 1704704400000) = 1"
    by (simp_all add: utcHost_simps WeekDay_def Day_def msPerDay_def)
  have k: "(3::int) = daysToWeekday (WeekDay (LocalTime utcHost 1704445200000))"
    by (simp add: w daysToWeekday_def)
  have d: "(1704704400000::int) = UTC utcHost (LocalTime utcHost 1704445200000 + 3 * msPerDay)"
    by (simp add: utcHost_simps msPerDay_def)
  have ex: "\<forall>j\<in>{1..3}. localTimeExists utcHost (LocalTime utcHost 1704445200000 + j * msPerDay) \<and>
      \<bar>UTC utcHost (LocalTime utcHost 1704445200000 + j * msPerDay)\<bar> \<le> 8640000000000000"
    by (auto simp: localTimeExists_def utcHost_simps msPerDay_def)
  have a: "Date_parse utcHost (dateISO ?t) = Num 1704445200000"
      "(1704445200000::int) \<le> 1704445205000" "notSent ?t" "repeat ?t = Some Weekdays"
    by (simp_all add: utcHost_simps sample_simps parse_jan5 notSent_def truthy_def)
  from weekdays_next_due[OF a, where k = 3 and D' = 1704704400000 and soundReady = True and
      stamp = 1704445205000] k d ex
  have 1: "scanTask utcHost True 1704445205000 1704445205000 ?t =
      Some (alerts utcHost True ?t,
            Inr (?t\<lparr>dateISO := isoString 1704704400000, notifiedAt := None\<rparr>))"
    by blast
  have wn: "WeekDay (LocalTime newYorkHost 1709906400000) = 5"
    by (simp add: LocalTime_def newYorkHost_simps newYorkTZA_def WeekDay_def Day_def msPerDay_def)
  have kn: "(3::int) = daysToWeekday (WeekDay (LocalTime newYorkHost 1709906400000))"
    by (simp add: wn daysToWeekday_def)
  have dn: "(1710162000000::int) =
      UTC newYorkHost (LocalTime newYorkHost 1709906400000 + 3 * msPerDay)"
    by (simp add: LocalTime_def UTC_def newYorkHost_simps newYorkTZA_def msPerDay_def)
  have b: "Date_parse newYorkHost (dateISO ?u) = Num 1709906400000"
      "(1709906400000::int) \<le> 1709906400000" "notSent ?u" "repeat ?u = Some Weekdays"
    by (simp_all add: newYorkHost_simps parse_24 parseISO_mar8_14 sample_simps notSent_def
        truthy_def)
  from weekdays_next_due[OF b, where k = 3 and D' = 1710162000000 and soundReady = True and
      stamp = 1709906400000] kn dn localTimeExists_newYork
  have 2: "scanTask newYorkHost True 1709906400000 1709906400000 ?u =
      Some (alerts newYorkHost True ?u,
            Inr (?u\<lparr>dateISO := isoString 1710162000000, notifiedAt := None\<rparr>)) \<and>
      Day (LocalTime newYorkHost 1710162000000) = Day (LocalTime newYorkHost 1709906400000) + 3"
    by blast
  have tw: "TimeWithinDay (LocalTime newYorkHost 1709906400000) = 32400000"
      "TimeWithinDay (LocalTime newYorkHost 1710162000000) = 32400000"
    by (simp_all add: TimeWithinDay_def LocalTime_def newYorkHost_simps newYorkTZA_def
        msPerDay_def)
  from 1 have s1: "scanTask utcHost True 1704445205000 1704445205000 ?t =
     Some ([Notification (js ''To-Do Reminder'') (js ''Take pill ? due now''), Beep 1600],
           Inr (sample\<lparr>dateISO := js ''2024-01-08T09:00:00.000Z'', repeat := Some Weekdays\<rparr>))"
    by (simp add: utcHost_simps iso_jan8 alerts_def sample_simps js_def sample_def)
  from 2 have s2: "scanTask newYorkHost True 1709906400000 1709906400000 ?u =
     Some ([Notification (js ''To-Do Reminder'') (js ''Take pill ? due now''), Beep 1600],
           Inr (sample\<lparr>dateISO := js ''2024-03-11T13:00:00.000Z'', repeat := Some Weekdays\<rparr>))"
    by (simp add: newYorkHost_simps iso_mar11_13 alerts_def sample_simps js_def sample_def)
  from 2 have 3: "Day (LocalTime newYorkHost 1710162000000) =
      Day (LocalTime newYorkHost 1709906400000) + 3"
    by (rule conjunct2)
  show ?thesis using s1 s2 3 w tw by simp
qed


text \<open>
  Against claim C2 as it is worded (the time of day is kept for every task): in New
  York a \<open>weekdays\<close> task due on Friday 2024-03-08 at 02:30 local time is stepped
  through the Sunday on which 02:30 does not exist, and is due next on Monday at 03:30
  local time.
\<close>

theorem weekdays_time_of_day_counterexample:
  "scanTask newYorkHost True 1709883000000 1709883000000
       (sample\<lparr>dateISO := js ''2024-03-08T07:30:00.000Z'', repeat := Some Weekdays\<rparr>) =
     Some ([Notification (js ''To-Do Reminder'') (js ''Take pill ? due now''), Beep 1600],
           Inr (sample\<lparr>dateISO := js ''2024-03-11T07:30:00.000Z'', repeat := Some Weekdays\<rparr>)) \<and>
   Date_parse newYorkHost (js ''2024-03-08T07:30:00.000Z'') = Num 1709883000000 \<and>
   Date_parse newYorkHost (js ''2024-03-11T07:30:00.000Z'') = Num 1710142200000 \<and>
   TimeWithinDay (LocalTime newYorkHost 1709883000000) = 9000000 \<and>
   TimeWithinDay (LocalTime newYorkHost 1710142200000) = 12600000"
proof -
  let ?t = "sample\<lparr>dateISO := js ''2024-03-08T07:30:00.000Z'', repeat := Some Weekdays\<rparr>"
  have p: "Date_parse newYorkHost (js ''2024-03-08T07:30:00.000Z'') = Num 1709883000000"
      "Date_parse newYorkHost (js ''2024-03-11T07:30:00.000Z'') = Num 1710142200000"
    by (simp_all add: newYorkHost_simps parse_24 parseISO_mar8 parseISO_mar11)
  have e: "eligible newYorkHost 1709883000000 ?t"
    by (simp add: eligible_def isDue_def notSent_def truthy_def p ge_number_def sample_simps)
  have r: "repeating ?t" by (simp add: repeating_def)
  have "scanTask newYorkHost True 1709883000000 1709883000000 ?t =
      Some (alerts newYorkHost True ?t,
            Inr (?t\<lparr>dateISO := isoString 1710142200000, notifiedAt := None\<rparr>))"
    by (simp add: scanTask_repeating[OF e r] reschedule_def p advanceWeekdays_newYork)
  then have a: "scanTask newYorkHost True 1709883000000 1709883000000 ?t =
      Some ([Notification (js ''To-Do Reminder'') (js ''Take pill ? due now''), Beep 1600],
            Inr (sample\<lparr>dateISO := js ''2024-03-11T07:30:00.000Z'', repeat := Some Weekdays\<rparr>))"
    by (simp add: iso_mar11 alerts_def newYorkHost_simps sample_simps js_def sample_def)
  have t: "TimeWithinDay (LocalTime newYorkHost 1709883000000) = 9000000"
      "TimeWithinDay (LocalTime newYorkHost 1710142200000) = 12600000"
    by (simp_all add: TimeWithinDay_def LocalTime_def newYorkHost_simps newYorkTZA_def
        msPerDay_def)
  show ?thesis using a p t by simp
qed

text \<open>
  Claim C3, as the program has it. A \<open>daily\<close> task alerted at its due timestamp \<open>D\<close> is
  due next at \<open>D'\<close>, the instant the host gives to the local date and time of \<open>D\<close> moved
  one calendar day on (provided it is in the range of \<open>Date\<close>), and its notified
  timestamp is cleared. Where the host's offset at \<open>D'\<close> is the one it applied to that
  local time, \<open>D'\<close> is on the next local calendar day at the same local time of day;
  where the offset applied is the offset at \<open>D\<close>, \<open>D'\<close> is \<open>D\<close> plus 24 hours.
\<close>

theorem daily_next_due:
  assumes "Date_parse h (dateISO t) = Num D" "D \<le> now" "notSent t" "repeat t = Some Daily"
    and "D' = UTC h (LocalTime h D + msPerDay)" "\<bar>D'\<bar> \<le> 8640000000000000"
  shows "scanTask h soundReady now stamp t =
           Some (alerts h soundReady t,
                 Inr (t\<lparr>dateISO := isoString D', notifiedAt := None\<rparr>)) \<and>
         (LocalTZA h D' True = LocalTZA h (LocalTime h D + msPerDay) False \<longrightarrow>
            Day (LocalTime h D') = Day (LocalTime h D) + 1 \<and>
            TimeWithinDay (LocalTime h D') = TimeWithinDay (LocalTime h D)) \<and>
         (LocalTZA h (LocalTime h D + msPerDay) False = LocalTZA h D True \<longrightarrow>
            D' = D + msPerDay)"
proof (intro conjI impI)
  show "scanTask h soundReady now stamp t =
      Some (alerts h soundReady t, Inr (t\<lparr>dateISO := isoString D', notifiedAt := None\<rparr>))"
    using assms by (simp add: scanTask_daily)
next
  assume "LocalTZA h D' True = LocalTZA h (LocalTime h D + msPerDay) False"
  then have lt: "LocalTime h D' = LocalTime h D + 1 * msPerDay"
    by (simp add: assms(5) LocalTime_def UTC_def)
  show "Day (LocalTime h D') = Day (LocalTime h D) + 1"
    unfolding lt by (rule Day_add)
  show "TimeWithinDay (LocalTime h D') = TimeWithinDay (LocalTime h D)"
    unfolding lt by (rule TimeWithinDay_add)
next
  assume "LocalTZA h (LocalTime h D + msPerDay) False = LocalTZA h D True"
  then show "D' = D + msPerDay"
    by (simp add: assms(5) LocalTime_def UTC_def)
qed

theorem daily_next_due_witness:
  "scanTask utcHost True 1704445205000 1704445205000 (sample\<lparr>repeat := Some Daily\<rparr>) =
     Some ([Notification (js ''To-Do Reminder'') (js ''Take pill ? due now''), Beep 1600],
           Inr (sample\<lparr>dateISO := js ''2024-01-06T09:00:00.000Z'', repeat := Some Daily\<rparr>)) \<and>
   (1704531600000::int) = 1704445200000 + msPerDay \<and>
   Day (LocalTime utcHost 1704531600000) = Day (LocalTime utcHost 1704445200000) + 1 \<and>
   TimeWithinDay (LocalTime utcHost 1704531600000) =
     TimeWithinDay (LocalTime utcHost 1704445200000)"
proof -
  let ?t = "sample\<lparr>repeat := Some Daily\<rparr>"
  have d: "(1704531600000::int) = UTC utcHost (LocalTime utcHost 1704445200000 + msPerDay)"
    by (simp add: utcHost_simps msPerDay_def)
  have o: "LocalTZA utcHost 1704531600000 True =
        LocalTZA utcHost (LocalTime utcHost 1704445200000 + msPerDay) False"
      "LocalTZA utcHost (LocalTime utcHost 1704445200000 + msPerDay) False =
        LocalTZA utcHost 1704445200000 True"
    by (simp_all add: utcHost_simps)
  from daily_next_due[of utcHost ?t 1704445200000 1704445205000 1704531600000 True
      1704445205000, OF _ _ _ _ d] o
  have "scanTask utcHost True 1704445205000 1704445205000 ?t =
      Some (alerts utcHost True ?t,
            Inr (?t\<lparr>dateISO := isoString 1704531600000, notifiedAt := None\<rparr>)) \<and>
    Day (LocalTime utcHost 1704531600000) = Day (LocalTime utcHost 1704445200000) + 1 \<and>
    TimeWithinDay (LocalTime utcHost 1704531600000) =
      TimeWithinDay (LocalTime utcHost 1704445200000) \<and>
    (1704531600000::int) = 1704445200000 + msPerDay"
    by (simp add: utcHost_simps sample_simps parse_jan5 notSent_def truthy_def)
  then show ?thesis
    by (simp add: iso_jan6 alerts_def utcHost_simps sample_simps js_def sample_def)
qed

text \<open>
  Against claim C3 as it is worded (24 hours later, and the same local time of day): in
  New York a \<open>daily\<close> task due on Saturday 2024-03-09 at 09:00 local time (14:00 UTC) is
  due next on Sunday at 09:00 local time, which is 13:00 UTC, 23 hours later; and one
  due on that Saturday at 02:30 local time is due next 24 hours later, which is 03:30
  on Sunday, 02:30 not existing that day.
\<close>

theorem daily_24_hours_counterexample:
  "scanTask newYorkHost True 1709992800000 1709992800000
       (sample\<lparr>dateISO := js ''2024-03-09T14:00:00.000Z'', repeat := Some Daily\<rparr>) =
     Some ([Notification (js ''To-Do Reminder'') (js ''Take pill ? due now''), Beep 1600],
           Inr (sample\<lparr>dateISO := js ''2024-03-10T13:00:00.000Z'', repeat := Some Daily\<rparr>)) \<and>
   Date_parse newYorkHost (js ''2024-03-09T14:00:00.000Z'') = Num 1709992800000 \<and>
   isoString (1709992800000 + msPerDay) = js ''2024-03-10T14:00:00.000Z'' \<and>
   js ''2024-03-10T13:00:00.000Z'' \<noteq> js ''2024-03-10T14:00:00.000Z'' \<and>
   scanTask newYorkHost True 1709969400000 1709969400000
       (sample\<lparr>dateISO := js ''2024-03-09T07:30:00.000Z'', repeat := Some Daily\<rparr>) =
     Some ([Notification (js ''To-Do Reminder'') (js ''Take pill ? due now''), Beep 1600],
           Inr (sample\<lparr>dateISO := js ''2024-03-10T07:30:00.000Z'', repeat := Some Daily\<rparr>)) \<and>
   Date_parse newYorkHost (js ''2024-03-09T07:30:00.000Z'') = Num 1709969400000 \<and>
   Date_parse newYorkHost (js ''2024-03-10T07:30:00.000Z'') = Num 1710055800000 \<and>
   TimeWithinDay (LocalTime newYorkHost 1709969400000) = 9000000 \<and>
   TimeWithinDay (LocalTime newYorkHost 1710055800000) = 12600000"
proof -
  let ?a = "sample\<lparr>dateISO := js ''2024-03-09T14:00:00.000Z'', repeat := Some Daily\<rparr>"
  let ?b = "sample\<lparr>dateISO := js ''2024-03-09T07:30:00.000Z'', repeat := Some Daily\<rparr>"
  have p: "Date_parse newYorkHost (js ''2024-03-09T14:00:00.000Z'') = Num 1709992800000"
      "Date_parse newYorkHost (js ''2024-03-09T07:30:00.000Z'') = Num 1709969400000"
      "Date_parse newYorkHost (js ''2024-03-10T07:30:00.000Z'') = Num 1710055800000"
    by (simp_all add: newYorkHost_simps parse_24 parseISO_mar9_14 parseISO_mar9 parseISO_mar10)
  have ua: "UTC newYorkHost (LocalTime newYorkHost 1709992800000 + msPerDay) = 1710075600000"
    and ub: "UTC newYorkHost (LocalTime newYorkHost 1709969400000 + msPerDay) = 1710055800000"
    by (simp_all add: UTC_def LocalTime_def newYorkHost_simps newYorkTZA_def msPerDay_def)
  have "scanTask newYorkHost True 1709992800000 1709992800000 ?a =
      Some (alerts newYorkHost True ?a,
            Inr (?a\<lparr>dateISO := isoString (UTC newYorkHost
                     (LocalTime newYorkHost 1709992800000 + msPerDay)), notifiedAt := None\<rparr>))"
    by (rule scanTask_daily) (simp_all add: p ua notSent_def truthy_def sample_simps)
  then have a: "scanTask newYorkHost True 1709992800000 1709992800000 ?a =
      Some ([Notification (js ''To-Do Reminder'') (js ''Take pill ? due now''), Beep 1600],
            Inr (sample\<lparr>dateISO := js ''2024-03-10T13:00:00.000Z'', repeat := Some Daily\<rparr>))"
    by (simp add: ua iso_mar10_13 alerts_def newYorkHost_simps sample_simps js_def sample_def)
  have "scanTask newYorkHost True 1709969400000 1709969400000 ?b =
      Some (alerts newYorkHost True ?b,
            Inr (?b\<lparr>dateISO := isoString (UTC newYorkHost
                     (LocalTime newYorkHost 1709969400000 + msPerDay)), notifiedAt := None\<rparr>))"
    by (rule scanTask_daily) (simp_all add: p ub notSent_def truthy_def sample_simps)
  then have b: "scanTask newYorkHost True 1709969400000 1709969400000 ?b =
      Some ([Notification (js ''To-Do Reminder'') (js ''Take pill ? due now''), Beep 1600],
            Inr (sample\<lparr>dateISO := js ''2024-03-10T07:30:00.000Z'', repeat := Some Daily\<rparr>))"
    by (simp add: ub iso_mar10 alerts_def newYorkHost_simps sample_simps js_def sample_def)
  have i: "isoString (1709992800000 + msPerDay) = js ''2024-03-10T14:00:00.000Z''"
    by (simp add: msPerDay_def iso_mar10_14)
  have n: "js ''2024-03-10T13:00:00.000Z'' \<noteq> js ''2024-03-10T14:00:00.000Z''"
    by (simp add: js_def)
  have t: "TimeWithinDay (LocalTime newYorkHost 1709969400000) = 9000000"
      "TimeWithinDay (LocalTime newYorkHost 1710055800000) = 12600000"
    by (simp_all add: TimeWithinDay_def LocalTime_def newYorkHost_simps newYorkTZA_def
        msPerDay_def)
  show ?thesis using a b p i n t by simp
qed

section \<open>The claims about the task store\<close>

text \<open>
  Claim C5, as the program has it. \<open>markDone\<close> leaves the collection as long as it was
  and sets the completed timestamp of every task with the identifier to the clock
  reading of its turn, whether or not the task had one; it changes no other task, and
  nothing when no task has the identifier. Done twice, it leaves the timestamps of the
  second time. The page keeps a completed timestamp as it is only by disabling the
  button of a completed task.
\<close>

theorem markDone_overwrites:
  "length (markDone clock ident ts) = length ts \<and>
   (\<forall>j < length ts.
      markDone clock ident ts ! j =
        (if id' (ts ! j) = ident then (ts ! j)\<lparr>completedAt := Some (isoString (clock j))\<rparr>
         else ts ! j)) \<and>
   (ident \<notin> id' ` set ts \<longrightarrow> markDone clock ident ts = ts) \<and>
   markDone clock2 ident (markDone clock ident ts) = markDone clock2 ident ts \<and>
   (truthy (completedAt t) \<longrightarrow> clickDone clock t ts = ts)"
  by (simp add: markDone_def length_markDoneFrom markDoneFrom_nth markDoneFrom_absent
      markDoneFrom_twice clickDone_def)

theorem markDone_overwrites_witness:
  "markDone (\<lambda>i. 1704445205000) (js ''a1'') [sample] ! 0 =
     sample\<lparr>completedAt := Some (js ''2024-01-05T09:00:05.000Z'')\<rparr> \<and>
   markDone (\<lambda>i. 1704445205000) (js ''b2'') [sample] = [sample] \<and>
   clickDone (\<lambda>i. 1704531600000)
       (sample\<lparr>completedAt := Some (js ''2024-01-05T09:00:05.000Z'')\<rparr>)
       [sample\<lparr>completedAt := Some (js ''2024-01-05T09:00:05.000Z'')\<rparr>] =
     [sample\<lparr>completedAt := Some (js ''2024-01-05T09:00:05.000Z'')\<rparr>]"
proof -
  have n: "js ''b2'' \<notin> id' ` set [sample]" "js ''a1'' = id' sample"
    by (simp_all add: sample_simps js_def)
  have t: "truthy (completedAt (sample\<lparr>completedAt := Some (js ''2024-01-05T09:00:05.000Z'')\<rparr>))"
    by (simp add: truthy_def js_def)
  from markDone_overwrites[of "\<lambda>i. 1704445205000" "js ''a1''" "[sample]"]
  have "markDone (\<lambda>i. 1704445205000) (js ''a1'') [sample] ! 0 =
      sample\<lparr>completedAt := Some (js ''2024-01-05T09:00:05.000Z'')\<rparr>"
    by (simp add: n(2)[symmetric] iso_stamp)
  moreover from markDone_overwrites[of "\<lambda>i. 1704445205000" "js ''b2''" "[sample]"] n(1)
  have "markDone (\<lambda>i. 1704445205000) (js ''b2'') [sample] = [sample]"
    by blast
  moreover from markDone_overwrites[where clock = "\<lambda>i. 1704531600000" and
      t = "sample\<lparr>completedAt := Some (js ''2024-01-05T09:00:05.000Z'')\<rparr>" and
      ts = "[sample\<lparr>completedAt := Some (js ''2024-01-05T09:00:05.000Z'')\<rparr>]"] t
  have "clickDone (\<lambda>i. 1704531600000)
       (sample\<lparr>completedAt := Some (js ''2024-01-05T09:00:05.000Z'')\<rparr>)
       [sample\<lparr>completedAt := Some (js ''2024-01-05T09:00:05.000Z'')\<rparr>] =
     [sample\<lparr>completedAt := Some (js ''2024-01-05T09:00:05.000Z'')\<rparr>]"
    by blast
  ultimately show ?thesis by blast
qed

text \<open>
  Against claim C5 as it is worded (a second \<open>complete\<close> leaves the first timestamp):
  \<open>markDone\<close> at 09:00:05 and again at the next day's 09:00:00 leaves the second time.
\<close>

theorem markDone_idempotent_counterexample:
  "markDone (\<lambda>i. 1704445205000) (js ''a1'') [sample] =
     [sample\<lparr>completedAt := Some (js ''2024-01-05T09:00:05.000Z'')\<rparr>] \<and>
   markDone (\<lambda>i. 1704531600000) (js ''a1'')
       (markDone (\<lambda>i. 1704445205000) (js ''a1'') [sample]) =
     [sample\<lparr>completedAt := Some (js ''2024-01-06T09:00:00.000Z'')\<rparr>] \<and>
   js ''2024-01-06T09:00:00.000Z'' \<noteq> js ''2024-01-05T09:00:05.000Z''"
  by (simp add: markDone_def sample_simps iso_stamp iso_jan6) (simp add: js_def)

text \<open>
  Claim C6, as the program has it. With a title that is empty or all white space
  \<open>addTask\<close> leaves the collection (and the title field) as it is. With any other title,
  and a date and time in the form that make a valid date, it puts exactly one new task
  at the front of the collection and leaves the rest as it was, in order: the task has
  the identifier that \<open>crypto.randomUUID\<close> returned, the title trimmed, the due
  timestamp of the form, the cadence chosen, and neither a notified nor a completed
  timestamp. The identifiers of the collection are distinct afterwards exactly when
  they were before and the identifier returned is not one of them: \<open>addTask\<close> does not
  look.
\<close>

theorem addTask_front:
  "(list_all isWhiteSpace title' \<longrightarrow>
      addTask h uuid title' date' time' repeat' prev = Inr (prev, title')) \<and>
   (\<not> list_all isWhiteSpace title' \<and>
    Date_parse h (date' @ js ''T'' @ time' @ js '':00'') = Num D \<longrightarrow>
      addTask h uuid title' date' time' repeat' prev =
        Inr (\<lparr>id' = uuid, title = trim title', dateISO = isoString D, notifiedAt = None,
               completedAt = None, repeat = Some repeat'\<rparr> # prev, []) \<and>
      trim title' \<noteq> [] \<and>
      (distinct (map id' (\<lparr>id' = uuid, title = trim title', dateISO = isoString D,
                            notifiedAt = None, completedAt = None,
                            repeat = Some repeat'\<rparr> # prev)) \<longleftrightarrow>
         uuid \<notin> id' ` set prev \<and> distinct (map id' prev)))"
  by (simp add: addTask_blank addTask_added trim_empty_iff)

theorem addTask_front_witness:
  "addTask utcHost (js ''c3'') (js ''   '') (js ''2024-01-05'') (js ''09:00'') Daily [sample] =
     Inr ([sample], js ''   '') \<and>
   addTask utcHost (js ''c3'') (js '' Take pill '') (js ''2024-01-05'') (js ''09:00'') Daily
       [sample] =
     Inr ([\<lparr>id' = js ''c3'', title = js ''Take pill'',
             dateISO = js ''2024-01-05T09:00:00.000Z'', notifiedAt = None,
             completedAt = None, repeat = Some Daily\<rparr>, sample], []) \<and>
   distinct (map id' [\<lparr>id' = js ''c3'', title = js ''Take pill'',
             dateISO = js ''2024-01-05T09:00:00.000Z'', notifiedAt = None,
             completedAt = None, repeat = Some Daily\<rparr>, sample])"
proof -
  have p: "Date_parse utcHost (js ''2024-01-05'' @ js ''T'' @ js ''09:00'' @ js '':00'') =
      Num 1704445200000"
    by (simp add: utcHost_simps parse_form_jan5)
  have f: "js ''c3'' \<notin> id' ` set [sample] \<and> distinct (map id' [sample])"
    by (simp add: sample_simps js_def)
  from addTask_front[of "js ''   ''" utcHost "js ''c3''" "js ''2024-01-05''" "js ''09:00''"
      Daily "[sample]"] blank_sample(1)
  have 1: "addTask utcHost (js ''c3'') (js ''   '') (js ''2024-01-05'') (js ''09:00'') Daily
      [sample] = Inr ([sample], js ''   '')"
    by blast
  from addTask_front[of "js '' Take pill ''" utcHost "js ''c3''" "js ''2024-01-05''"
      "js ''09:00''" Daily "[sample]" 1704445200000] blank_sample(2) p f
  have 2: "addTask utcHost (js ''c3'') (js '' Take pill '') (js ''2024-01-05'') (js ''09:00'')
        Daily [sample] =
      Inr (\<lparr>id' = js ''c3'', title = trim (js '' Take pill ''),
             dateISO = isoString 1704445200000, notifiedAt = None,
             completedAt = None, repeat = Some Daily\<rparr> # [sample], []) \<and>
    distinct (map id' (\<lparr>id' = js ''c3'', title = trim (js '' Take pill ''),
             dateISO = isoString 1704445200000, notifiedAt = None,
             completedAt = None, repeat = Some Daily\<rparr> # [sample]))"
    by blast
  show ?thesis
    using 1 2 by (simp add: trim_sample iso_jan5)
qed



text \<open>
  Against claim C6 as it is worded (a fresh identifier, for every title that is not
  blank): when \<open>crypto.randomUUID\<close> returns the identifier of a task of the collection,
  \<open>addTask\<close> adds a second task with it; and with the date field of the form empty,
  \<open>addTask\<close> throws the RangeError of \<open>toISOString\<close> and adds nothing.
\<close>

theorem addTask_fresh_counterexample:
  "addTask utcHost (js ''a1'') (js ''Walk dog'') (js ''2024-01-05'') (js ''09:00'') Daily
       [sample] =
     Inr ([\<lparr>id' = js ''a1'', title = js ''Walk dog'',
             dateISO = js ''2024-01-05T09:00:00.000Z'', notifiedAt = None,
             completedAt = None, repeat = Some Daily\<rparr>, sample], []) \<and>
   id' sample = js ''a1'' \<and>
   \<not> distinct (map id' [\<lparr>id' = js ''a1'', title = js ''Walk dog'',
             dateISO = js ''2024-01-05T09:00:00.000Z'', notifiedAt = None,
             completedAt = None, repeat = Some Daily\<rparr>, sample]) \<and>
   \<not> list_all isWhiteSpace (js ''Walk dog'') \<and>
   addTask utcHost (js ''c3'') (js ''Walk dog'') (js []) (js ''09:00'') Daily [sample] =
     Inl RangeError"
proof -
  have b: "\<not> list_all isWhiteSpace (js ''Walk dog'')" "trim (js ''Walk dog'') = js ''Walk dog''"
    by code_simp+
  have p: "Date_parse utcHost (js ''2024-01-05'' @ js ''T'' @ js ''09:00'' @ js '':00'') =
      Num 1704445200000"
    by (simp add: utcHost_simps parse_form_jan5)
  have q: "Date_parse utcHost (js [] @ js ''T'' @ js ''09:00'' @ js '':00'') = NaN"
    by (simp add: utcHost_simps parse_form_empty)
  have 1: "addTask utcHost (js ''a1'') (js ''Walk dog'') (js ''2024-01-05'') (js ''09:00'') Daily
       [sample] =
     Inr ([\<lparr>id' = js ''a1'', title = js ''Walk dog'',
             dateISO = js ''2024-01-05T09:00:00.000Z'', notifiedAt = None,
             completedAt = None, repeat = Some Daily\<rparr>, sample], [])"
    using addTask_added[OF b(1) p] by (simp add: b(2) iso_jan5)
  have 2: "addTask utcHost (js ''c3'') (js ''Walk dog'') (js []) (js ''09:00'') Daily [sample] =
     Inl RangeError"
    using b(1) q by (rule addTask_invalid)
  show ?thesis using 1 2 b(1) by (simp add: sample_simps)
qed

section \<open>The claims about persistence\<close>

lemma optional_lookup:
  "map_of (optional k v) k' = (if k' = k then map_option JString v else None)"
  by (cases v) (auto simp: optional_def)

lemma keys_distinct:
  "js ''id'' \<noteq> js ''title''" "js ''id'' \<noteq> js ''dateISO''" "js ''id'' \<noteq> js ''notifiedAt''"
  "js ''id'' \<noteq> js ''completedAt''" "js ''id'' \<noteq> js ''repeat''"
  "js ''title'' \<noteq> js ''dateISO''" "js ''title'' \<noteq> js ''notifiedAt''"
  "js ''title'' \<noteq> js ''completedAt''" "js ''title'' \<noteq> js ''repeat''"
  "js ''dateISO'' \<noteq> js ''notifiedAt''" "js ''dateISO'' \<noteq> js ''completedAt''"
  "js ''dateISO'' \<noteq> js ''repeat''" "js ''notifiedAt'' \<noteq> js ''completedAt''"
  "js ''notifiedAt'' \<noteq> js ''repeat''" "js ''completedAt'' \<noteq> js ''repeat''"
  by (simp_all add: js_def)

lemma repeatOf_repeatString: "repeatOf (repeatString r) = Some r"
  by (cases r) (simp_all add: repeatOf_def repeatString_def js_def)

lemma taskOf_taskJSON: "taskOf (taskJSON t) = Some t"
  by (cases "repeat t")
     (simp_all add: taskOf_def taskJSON_def stringProp_def wellTyped_def optional_lookup
       keys_distinct keys_distinct[symmetric] map_add_def repeatOf_repeatString
       split: option.splits)

lemma spread_taskJSON: "JObject (spread (taskJSON t)) = taskJSON t"
  by (simp add: taskJSON_def)

lemma getItem_setItem: "setItem st k v = Inr st' \<Longrightarrow> getItem st' k = Inr (Some v)"
  by (auto simp: setItem_def getItem_def split: if_splits)

lemma loadTasks_total: "\<exists>vs. loadTasks api st = Inr vs"
  by (simp add: loadTasks_def split: sum.splits)

lemma loadTasks_array:
  "getItem st STORAGE_KEY = Inr (Some raw) \<Longrightarrow> raw \<noteq> [] \<Longrightarrow>
   JSON_parse api raw = Inr (JArray parsed) \<Longrightarrow>
   loadTasks api st = Inr (map (\<lambda>t. JObject (spread t)) parsed)"
  by (simp add: loadTasks_def loadTasks_try_def)

lemma loadTasks_not_array:
  "getItem st STORAGE_KEY = Inr (Some raw) \<Longrightarrow> JSON_parse api raw = Inr v \<Longrightarrow>
   \<forall>xs. v \<noteq> JArray xs \<Longrightarrow> loadTasks api st = Inr []"
  by (cases v) (simp_all add: loadTasks_def loadTasks_try_def)

text \<open>
  The parser reads what the writer wrote, for every collection: first a quoted string,
  then the properties of a task, then the tasks of the array.
\<close>

lemma hexValue_hexDigit: "hexValue (hexDigit n) = Some (n mod 16)"
proof -
  have r: "0 \<le> n mod 16" "n mod 16 < 16" by simp_all
  show ?thesis
  proof (cases "n mod 16 < 10")
    case True
    with r have "uint (word_of_int (48 + n mod 16) :: 16 word) = 48 + n mod 16"
      by (intro uint_small) linarith+
    with True r show ?thesis by (simp add: hexValue_def hexDigit_def Let_def)
  next
    case False
    with r have "uint (word_of_int (87 + n mod 16) :: 16 word) = 87 + n mod 16"
      by (intro uint_small) linarith+
    with False r show ?thesis by (simp add: hexValue_def hexDigit_def Let_def)
  qed
qed

lemma hex4:
  fixes u :: int
  assumes "0 \<le> u" "u < 65536"
  shows "4096 * (u div 4096 mod 16) + 256 * (u div 256 mod 16) + 16 * (u div 16 mod 16) +
         u mod 16 = u"
proof -
  have a: "u = 16 * (u div 16) + u mod 16" by simp
  have b: "u div 16 = 16 * (u div 256) + u div 16 mod 16"
    using zdiv_zmult2_eq[of 16 u 16] by simp
  have c: "u div 256 = 16 * (u div 4096) + u div 256 mod 16"
    using zdiv_zmult2_eq[of 16 u 256] by simp
  have "0 \<le> u div 4096" "u div 4096 < 16" using assms by simp_all
  then have d: "u div 4096 mod 16 = u div 4096" by simp
  show ?thesis using a b c d by linarith
qed

lemma stringBody_unicodeEscape:
  "stringBody (unicodeEscape c @ r) = map_option (\<lambda>(s, r). (c # s, r)) (stringBody r)"
proof -
  have u: "0 \<le> uint c" "uint c < 65536" using uint_lt2p[of c] by simp_all
  have "word_of_int (4096 * (uint c div 4096 mod 16) + 256 * (uint c div 256 mod 16) +
      16 * (uint c div 16 mod 16) + uint c mod 16) = c"
    by (simp only: hex4[OF u]) simp
  then show ?thesis
    by (simp add: unicodeEscape_def hexValue_hexDigit)
qed

lemma stringBody_literal:
  "c \<noteq> 34 \<Longrightarrow> \<not> uint c < 32 \<Longrightarrow> c \<noteq> 92 \<Longrightarrow>
   stringBody (c # r) = map_option (\<lambda>(s, r). (c # s, r)) (stringBody r)"
  by simp

lemma stringBody_escapeUnit:
  "stringBody (escapeUnit c @ r) = map_option (\<lambda>(s, r). (c # s, r)) (stringBody r)"
proof -
  consider "c = 8" | "c = 9" | "c = 10" | "c = 12" | "c = 13" | "c = 34" | "c = 92"
    | "c \<noteq> 8" "c \<noteq> 9" "c \<noteq> 10" "c \<noteq> 12" "c \<noteq> 13" "c \<noteq> 34" "c \<noteq> 92" "uint c < 32"
    | "c \<noteq> 8" "c \<noteq> 9" "c \<noteq> 10" "c \<noteq> 12" "c \<noteq> 13" "c \<noteq> 34" "c \<noteq> 92" "\<not> uint c < 32"
    by blast
  then show ?thesis
  proof cases
    case 8
    then show ?thesis by (simp add: escapeUnit_def stringBody_unicodeEscape)
  next
    case 9
    then show ?thesis by (simp add: escapeUnit_def stringBody_literal)
  qed (simp_all add: escapeUnit_def)
qed

lemma surrogate_literal:
  "isLeadingSurrogate c \<or> isTrailingSurrogate c \<Longrightarrow> c \<noteq> 34 \<and> \<not> uint c < 32 \<and> c \<noteq> 92"
  by (auto simp: isLeadingSurrogate_def isTrailingSurrogate_def)

lemma stringBody_escapeJSON: "stringBody (escapeJSON s @ 34 # r) = Some (s, r)"
proof (induction s rule: escapeJSON.induct)
  case 1
  show ?case by simp
next
  case (2 c)
  show ?case by (simp add: stringBody_unicodeEscape stringBody_escapeUnit)
next
  case (3 c d cs)
  show ?case
  proof (cases "isLeadingSurrogate c \<and> isTrailingSurrogate d")
    case True
    then have "c \<noteq> 34 \<and> \<not> uint c < 32 \<and> c \<noteq> 92" "d \<noteq> 34 \<and> \<not> uint d < 32 \<and> d \<noteq> 92"
      by (simp_all add: surrogate_literal)
    with True 3 show ?thesis by (simp add: stringBody_literal del: stringBody.simps)
  next
    case False
    with 3 show ?thesis
      by (auto simp add: stringBody_unicodeEscape stringBody_escapeUnit
          simp del: stringBody.simps)
  qed
qed

lemma stringifyTask_props:
  "stringifyTask t = 123 # commaJoin (map stringifyProp (taskProps t)) @ [125]"
  by (simp add: stringifyTask_def js_def)

lemma commaJoin_Cons: "xs \<noteq> [] \<Longrightarrow> commaJoin (x # xs) = x @ 44 # commaJoin xs"
  by (cases xs) (simp_all add: js_def)

lemma skipWs_keep:
  "c \<noteq> 32 \<Longrightarrow> c \<noteq> 9 \<Longrightarrow> c \<noteq> 10 \<Longrightarrow> c \<noteq> 13 \<Longrightarrow> skipWs (c # s) = c # s"
  by (simp add: skipWs_def)

lemma stringifyProp_shape:
  "stringifyProp (k, v) @ r = 34 # escapeJSON k @ 34 # 58 # 34 # escapeJSON v @ 34 # r"
  by (simp add: stringifyProp_def quoteJSON_def js_def)

lemma parseValue_string:
  "parseValue (Suc n) (34 # escapeJSON v @ 34 # r) = Some (JString v, r)"
  by (simp add: skipWs_keep stringBody_escapeJSON)

lemma parseMembers_last:
  "parseMembers (Suc (Suc m)) acc
     (34 # escapeJSON k @ 34 # 58 # 34 # escapeJSON v @ 34 # 125 # r) =
   Some (JObject (setProp k (JString v) acc), r)"
  by (simp add: skipWs_keep stringBody_escapeJSON del: parseValue.simps stringBody.simps)
     (simp add: parseValue_string skipWs_keep del: parseValue.simps stringBody.simps)

lemma parseMembers_step:
  "parseMembers (Suc (Suc m)) acc
     (34 # escapeJSON k @ 34 # 58 # 34 # escapeJSON v @ 34 # 44 # r) =
   parseMembers (Suc m) (setProp k (JString v) acc) r"
  apply (subst parseMembers.simps(2))
  apply (simp add: skipWs_keep stringBody_escapeJSON
        del: parseValue.simps stringBody.simps parseMembers.simps)
  apply (simp add: parseValue_string skipWs_keep
        del: parseValue.simps stringBody.simps parseMembers.simps)
  done

lemma parseMembers_props:
  "kvs \<noteq> [] \<Longrightarrow> length kvs < f \<Longrightarrow>
   parseMembers f acc (commaJoin (map stringifyProp kvs) @ 125 # r) =
     Some (JObject (foldl (\<lambda>a kv. setProp (fst kv) (JString (snd kv)) a) acc kvs), r)"
proof (induction kvs arbitrary: f acc rule: list_nonempty_induct)
  case (single kv)
  then obtain m where f: "f = Suc (Suc m)"
    by (cases f; cases "f - 1") auto
  obtain k v where kv: "kv = (k, v)" by (cases kv)
  show ?case
    by (simp add: f kv stringifyProp_shape parseMembers_last del: parseMembers.simps)
next
  case (cons kv kvs)
  from cons.prems obtain m where f: "f = Suc (Suc m)" "length kvs < Suc m"
    by (cases f; cases "f - 1") auto
  obtain k v where kv: "kv = (k, v)" by (cases kv)
  have j: "commaJoin (map stringifyProp (kv # kvs)) @ 125 # r =
      34 # escapeJSON k @ 34 # 58 # 34 # escapeJSON v @ 34 # 44 #
        (commaJoin (map stringifyProp kvs) @ 125 # r)"
    using cons.hyps by (simp add: commaJoin_Cons kv stringifyProp_def quoteJSON_def js_def)
  show ?case
    unfolding j f(1) parseMembers_step
    by (simp add: cons.IH[OF f(2)] kv del: parseMembers.simps)
qed

lemma setProp_fresh: "k \<notin> fst ` set acc \<Longrightarrow> setProp k v acc = acc @ [(k, v)]"
  by (induction acc) auto

lemma foldl_setProp:
  "distinct (map fst acc @ map fst kvs) \<Longrightarrow>
   foldl (\<lambda>a kv. setProp (fst kv) (JString (snd kv)) a) acc kvs =
     acc @ map (\<lambda>kv. (fst kv, JString (snd kv))) kvs"
proof (induction kvs arbitrary: acc)
  case Nil
  show ?case by simp
next
  case (Cons kv kvs)
  from Cons.prems have "fst kv \<notin> fst ` set acc" by auto
  then have s: "setProp (fst kv) (JString (snd kv)) acc = acc @ [(fst kv, JString (snd kv))]"
    by (rule setProp_fresh)
  from Cons.prems have "distinct (map fst (acc @ [(fst kv, JString (snd kv))]) @ map fst kvs)"
    by auto
  from Cons.IH[OF this] show ?case by (simp add: s)
qed

lemma taskProps_distinct: "distinct (map fst (taskProps t))"
  by (simp add: taskProps_def keys_distinct keys_distinct[symmetric]
      split: option.splits)

lemma taskProps_length: "taskProps t \<noteq> []" "length (taskProps t) \<le> 6"
  by (simp_all add: taskProps_def split: option.splits)

lemma taskJSON_props: "taskJSON t = JObject (map (\<lambda>kv. (fst kv, JString (snd kv))) (taskProps t))"
  by (simp add: taskJSON_def taskProps_def optional_def split: option.splits)

lemma commaJoin_props_head:
  "kvs \<noteq> [] \<Longrightarrow> \<exists>x. commaJoin (map stringifyProp kvs) @ r = 34 # x"
  by (cases kvs rule: list.exhaust; cases "tl kvs")
     (auto simp: stringifyProp_def quoteJSON_def js_def)

lemma parseValue_task:
  assumes "7 \<le> n"
  shows "parseValue (Suc n) (stringifyTask t @ r) = Some (taskJSON t, r)"
proof -
  obtain x where x: "commaJoin (map stringifyProp (taskProps t)) @ 125 # r = 34 # x"
    using commaJoin_props_head[OF taskProps_length(1)] by blast
  have l: "length (taskProps t) < n" using taskProps_length(2)[of t] assms by simp
  have "parseValue (Suc n) (123 # commaJoin (map stringifyProp (taskProps t)) @ 125 # r) =
      parseMembers n [] (commaJoin (map stringifyProp (taskProps t)) @ 125 # r)"
    by (simp add: skipWs_keep x del: parseMembers.simps)
  also have "\<dots> = Some (JObject (foldl (\<lambda>a kv. setProp (fst kv) (JString (snd kv)) a) []
      (taskProps t)), r)"
    by (rule parseMembers_props[OF taskProps_length(1) l])
  also have "\<dots> = Some (taskJSON t, r)"
    using foldl_setProp[of "[]" "taskProps t"] taskProps_distinct[of t]
    by (simp add: taskJSON_props)
  finally show ?thesis by (simp add: stringifyTask_props)
qed

lemma stringifyTask_head: "\<exists>x. stringifyTask t @ r = 123 # x"
  by (simp add: stringifyTask_props)

lemma parseElements_last:
  assumes "7 \<le> m"
  shows "parseElements (Suc (Suc m)) acc (stringifyTask t @ 93 # r) =
         Some (JArray (acc @ [taskJSON t]), r)"
  apply (subst parseElements.simps(2))
  apply (simp add: parseValue_task[OF assms] skipWs_keep del: parseValue.simps parseElements.simps)
  done

lemma parseElements_step:
  assumes "7 \<le> m"
  shows "parseElements (Suc (Suc m)) acc (stringifyTask t @ 44 # r) =
         parseElements (Suc m) (acc @ [taskJSON t]) r"
  apply (subst parseElements.simps(2))
  apply (simp add: parseValue_task[OF assms] skipWs_keep del: parseValue.simps parseElements.simps)
  done

lemma parseElements_tasks:
  "ts \<noteq> [] \<Longrightarrow> length ts + 8 \<le> f \<Longrightarrow>
   parseElements f acc (commaJoin (map stringifyTask ts) @ 93 # r) =
     Some (JArray (acc @ map taskJSON ts), r)"
proof (induction ts arbitrary: f acc rule: list_nonempty_induct)
  case (single t)
  then obtain m where f: "f = Suc (Suc m)" "7 \<le> m"
    by (cases f; cases "f - 1") auto
  show ?case
    by (simp add: f(1) parseElements_last[OF f(2)] del: parseElements.simps)
next
  case (cons t ts)
  from cons.prems obtain m where f: "f = Suc (Suc m)" "7 \<le> m" "length ts + 8 \<le> Suc m"
    by (cases f; cases "f - 1") auto
  have j: "commaJoin (map stringifyTask (t # ts)) @ 93 # r =
      stringifyTask t @ 44 # (commaJoin (map stringifyTask ts) @ 93 # r)"
    using cons.hyps by (simp add: commaJoin_Cons)
  show ?case
    unfolding j f(1) parseElements_step[OF f(2)]
    by (simp add: cons.IH[OF f(3)] del: parseElements.simps)
qed

lemma length_commaJoin:
  "(\<And>x. x \<in> set xs \<Longrightarrow> 2 \<le> length x) \<Longrightarrow> 2 * length xs \<le> length (commaJoin xs)"
  by (induction xs rule: commaJoin.induct) (auto simp: js_def, force)

lemma length_stringifyTask: "2 \<le> length (stringifyTask t)"
  by (simp add: stringifyTask_props)

lemma parseJSON_stringifyTasks: "parseJSON (stringifyTasks ts) = Inr (JArray (map taskJSON ts))"
proof (cases "ts = []")
  case True
  have "parseValue (Suc n) [91, 93] = Some (JArray [], [])" for n
    by (simp add: skipWs_def)
  from this[of 5] have "parseValue 6 [91, 93] = Some (JArray [], [])"
    by (simp del: parseValue.simps)
  with True show ?thesis
    by (simp add: parseJSON_def stringifyTasks_def js_def skipWs_def)
next
  case False
  let ?body = "commaJoin (map stringifyTask ts)"
  have s: "stringifyTasks ts = 91 # ?body @ [93]"
    by (simp add: stringifyTasks_def js_def)
  have b: "2 * length (map stringifyTask ts) \<le> length ?body"
    by (rule length_commaJoin) (auto simp: length_stringifyTask)
  have l: "length (stringifyTasks ts) = length ?body + 2"
    by (simp add: s)
  have "1 \<le> length ts" using False by (cases ts) simp_all
  with b have fuel: "length ts + 8 \<le> 2 * length (stringifyTasks ts) + 1"
    unfolding l by simp
  obtain t ts' where ts: "ts = t # ts'" using False by (cases ts) auto
  obtain x where x: "?body @ [93] = 123 # x"
    using stringifyTask_head[of t] by (cases ts') (auto simp: ts js_def)
  have "parseValue (Suc (2 * length (stringifyTasks ts) + 1)) (91 # ?body @ [93]) =
      parseElements (2 * length (stringifyTasks ts) + 1) [] (?body @ [93])"
    by (simp add: skipWs_keep x del: parseElements.simps)
  also have "\<dots> = Some (JArray (map taskJSON ts), [])"
    using parseElements_tasks[OF False fuel, of "[]" "[]"] by simp
  finally show ?thesis
    by (simp add: parseJSON_def s skipWs_def)
qed

lemma stringifyTasks_nonempty: "stringifyTasks ts \<noteq> []"
  by (simp add: stringifyTasks_def js_def)

text \<open>
  Claim C7. \<open>loadTasks\<close> returns a collection and never throws, whatever the storage
  holds and whatever the host's parser does with it. It returns the empty collection
  when the storage may not be read, when nothing is stored under the key, when what is
  stored does not parse, and when it parses to something that is not an array; when it
  parses to an array it returns the elements of the array, each copied, and these are
  the tasks when the array is one of tasks.
\<close>

theorem loadTasks_never_raises:
  "(\<exists>vs. loadTasks api st = Inr vs) \<and>
   (getItem st STORAGE_KEY = Inl e \<longrightarrow> loadTasks api st = Inr []) \<and>
   (getItem st STORAGE_KEY = Inr None \<longrightarrow> loadTasks api st = Inr []) \<and>
   (getItem st STORAGE_KEY = Inr (Some raw) \<and> JSON_parse api raw = Inl e \<longrightarrow>
      loadTasks api st = Inr []) \<and>
   (getItem st STORAGE_KEY = Inr (Some raw) \<and> JSON_parse api raw = Inr v \<and>
    (\<forall>xs. v \<noteq> JArray xs) \<longrightarrow> loadTasks api st = Inr []) \<and>
   (getItem st STORAGE_KEY = Inr (Some raw) \<and> raw \<noteq> [] \<and>
    JSON_parse api raw = Inr (JArray parsed) \<longrightarrow>
      loadTasks api st = Inr (map (\<lambda>t. JObject (spread t)) parsed)) \<and>
   (getItem st STORAGE_KEY = Inr (Some raw) \<and> raw \<noteq> [] \<and>
    JSON_parse api raw = Inr (JArray (map taskJSON ts)) \<longrightarrow>
      (\<exists>vs. loadTasks api st = Inr vs \<and> map taskOf vs = map Some ts))"
proof (intro conjI impI)
  show "\<exists>vs. loadTasks api st = Inr vs" by (rule loadTasks_total)
next
  assume "getItem st STORAGE_KEY = Inl e"
  then show "loadTasks api st = Inr []" by (simp add: loadTasks_def loadTasks_try_def)
next
  assume "getItem st STORAGE_KEY = Inr None"
  then show "loadTasks api st = Inr []" by (simp add: loadTasks_def loadTasks_try_def)
next
  assume "getItem st STORAGE_KEY = Inr (Some raw) \<and> JSON_parse api raw = Inl e"
  then show "loadTasks api st = Inr []" by (simp add: loadTasks_def loadTasks_try_def)
next
  assume "getItem st STORAGE_KEY = Inr (Some raw) \<and> JSON_parse api raw = Inr v \<and>
    (\<forall>xs. v \<noteq> JArray xs)"
  then show "loadTasks api st = Inr []" by (blast intro: loadTasks_not_array)
next
  assume "getItem st STORAGE_KEY = Inr (Some raw) \<and> raw \<noteq> [] \<and>
    JSON_parse api raw = Inr (JArray parsed)"
  then show "loadTasks api st = Inr (map (\<lambda>t. JObject (spread t)) parsed)"
    by (simp add: loadTasks_array)
next
  assume "getItem st STORAGE_KEY = Inr (Some raw) \<and> raw \<noteq> [] \<and>
    JSON_parse api raw = Inr (JArray (map taskJSON ts))"
  then have "loadTasks api st = Inr (map (\<lambda>t. JObject (spread t)) (map taskJSON ts))"
    by (simp add: loadTasks_array)
  then show "\<exists>vs. loadTasks api st = Inr vs \<and> map taskOf vs = map Some ts"
    by (simp add: spread_taskJSON taskOf_taskJSON comp_def)
qed

theorem loadTasks_never_raises_witness:
  "loadTasks jsonHost (emptyStorage\<lparr>accessible := False\<rparr>) = Inr [] \<and>
   loadTasks jsonHost emptyStorage = Inr [] \<and>
   loadTasks jsonHost (emptyStorage\<lparr>items := (\<lambda>k. Some (js ''[{id:''))\<rparr>) = Inr [] \<and>
   loadTasks jsonHost (emptyStorage\<lparr>items := (\<lambda>k. Some (js ''{}''))\<rparr>) = Inr [] \<and>
   loadTasks jsonHost (emptyStorage\<lparr>items := (\<lambda>k. Some (stringifyTasks [sample]))\<rparr>) =
     Inr [taskJSON sample]"
proof -
  have g: "getItem (emptyStorage\<lparr>accessible := False\<rparr>) STORAGE_KEY = Inl SecurityError"
      "getItem emptyStorage STORAGE_KEY = Inr None"
      "getItem (emptyStorage\<lparr>items := (\<lambda>k. Some x)\<rparr>) STORAGE_KEY = Inr (Some x)" for x
    by (simp_all add: getItem_def emptyStorage_def)
  have p: "JSON_parse jsonHost (js ''[{id:'') = Inl SyntaxError"
      "JSON_parse jsonHost (js ''{}'') = Inr (JObject [])"
      "JSON_parse jsonHost (stringifyTasks [sample]) = Inr (JArray [taskJSON sample])"
    unfolding jsonHost_def json_api.simps by code_simp+
  have n: "stringifyTasks [sample] \<noteq> []"
    by (simp add: stringifyTasks_def js_def)
  note w = loadTasks_never_raises[of jsonHost]
  from w[of "emptyStorage\<lparr>accessible := False\<rparr>" SecurityError] g(1)
  have 1: "loadTasks jsonHost (emptyStorage\<lparr>accessible := False\<rparr>) = Inr []" by blast
  from w[of emptyStorage] g(2)
  have 2: "loadTasks jsonHost emptyStorage = Inr []" by blast
  from w[of "emptyStorage\<lparr>items := (\<lambda>k. Some (js ''[{id:''))\<rparr>" SyntaxError "js ''[{id:''"]
    g(3) p(1)
  have 3: "loadTasks jsonHost (emptyStorage\<lparr>items := (\<lambda>k. Some (js ''[{id:''))\<rparr>) = Inr []"
    by blast
  from w[of "emptyStorage\<lparr>items := (\<lambda>k. Some (js ''{}''))\<rparr>" _ "js ''{}''" "JObject []"]
    g(3) p(2)
  have 4: "loadTasks jsonHost (emptyStorage\<lparr>items := (\<lambda>k. Some (js ''{}''))\<rparr>) = Inr []"
    by blast
  from w[of "emptyStorage\<lparr>items := (\<lambda>k. Some (stringifyTasks [sample]))\<rparr>" _
      "stringifyTasks [sample]" _ "[taskJSON sample]"] g(3) p(3) n
  have 5: "loadTasks jsonHost (emptyStorage\<lparr>items := (\<lambda>k. Some (stringifyTasks [sample]))\<rparr>) =
      Inr (map (\<lambda>t. JObject (spread t)) [taskJSON sample])"
    by blast
  show ?thesis
    using 1 2 3 4 5 by (simp add: spread_taskJSON)
qed

text \<open>
  Claim C8. When \<open>saveTasks\<close> has stored a collection, \<open>loadTasks\<close> on that storage
  returns the JSON objects of its tasks, in the same order, and read as tasks they are
  the tasks that were saved: same identifier, title, due timestamp, notified and
  completed timestamps and cadence. This holds on a host whose \<open>JSON.parse\<close> reads the
  text that its \<open>JSON.stringify\<close> wrote for the collection back as the array of the
  tasks' objects, that text not being empty; the writer and the parser of JSON defined
  above are such a host, for every collection.
\<close>

theorem save_load_roundtrip:
  "(saveTasks api ts st = Inr st' \<and>
    JSON_parse api (JSON_stringify api ts) = Inr (JArray (map taskJSON ts)) \<and>
    JSON_stringify api ts \<noteq> [] \<longrightarrow>
      loadTasks api st' = Inr (map taskJSON ts)) \<and>
   map taskOf (map taskJSON ts) = map Some ts \<and>
   (saveTasks jsonHost ts st = Inr st' \<longrightarrow> loadTasks jsonHost st' = Inr (map taskJSON ts))"
proof -
  have general: "loadTasks api st' = Inr (map taskJSON ts)"
    if "saveTasks api ts st = Inr st'"
      and "JSON_parse api (JSON_stringify api ts) = Inr (JArray (map taskJSON ts))"
      and "JSON_stringify api ts \<noteq> []"
    for api :: json_api
  proof -
    from that(1) have "getItem st' STORAGE_KEY = Inr (Some (JSON_stringify api ts))"
      by (simp add: saveTasks_def getItem_setItem)
    with that(2,3)
    have "loadTasks api st' = Inr (map (\<lambda>t. JObject (spread t)) (map taskJSON ts))"
      by (simp add: loadTasks_array)
    then show ?thesis by (simp add: spread_taskJSON comp_def)
  qed
  have "loadTasks jsonHost st' = Inr (map taskJSON ts)" if "saveTasks jsonHost ts st = Inr st'"
    using that
    by (rule general)
       (simp_all add: jsonHost_def parseJSON_stringifyTasks stringifyTasks_nonempty)
  with general show ?thesis
    by (simp add: taskOf_taskJSON comp_def)
qed

theorem save_load_roundtrip_witness:
  \<open>saveTasks jsonHost
       [sample\<lparr>completedAt := Some (js ''2024-01-05T09:00:05.000Z''), repeat := Some Daily\<rparr>,
        sample\<lparr>id' := js ''b2'', title := js ''Call Bob, 10:30''\<rparr>] emptyStorage =
     Inr (emptyStorage\<lparr>items := (items emptyStorage)(STORAGE_KEY \<mapsto>
       js ''[{"id":"a1","title":"Take pill","dateISO":"2024-01-05T09:00:00.000Z","completedAt":"2024-01-05T09:00:05.000Z","repeat":"daily"},{"id":"b2","title":"Call Bob, 10:30","dateISO":"2024-01-05T09:00:00.000Z"}]'')\<rparr>) \<and>
   loadTasks jsonHost (emptyStorage\<lparr>items := (items emptyStorage)(STORAGE_KEY \<mapsto>
       js ''[{"id":"a1","title":"Take pill","dateISO":"2024-01-05T09:00:00.000Z","completedAt":"2024-01-05T09:00:05.000Z","repeat":"daily"},{"id":"b2","title":"Call Bob, 10:30","dateISO":"2024-01-05T09:00:00.000Z"}]'')\<rparr>) =
     Inr (map taskJSON
       [sample\<lparr>completedAt := Some (js ''2024-01-05T09:00:05.000Z''), repeat := Some Daily\<rparr>,
        sample\<lparr>id' := js ''b2'', title := js ''Call Bob, 10:30''\<rparr>])\<close>
proof -
  let ?ts = \<open>[sample\<lparr>completedAt := Some (js ''2024-01-05T09:00:05.000Z''), repeat := Some Daily\<rparr>,
        sample\<lparr>id' := js ''b2'', title := js ''Call Bob, 10:30''\<rparr>]\<close>
  let ?text = \<open>js ''[{"id":"a1","title":"Take pill","dateISO":"2024-01-05T09:00:00.000Z","completedAt":"2024-01-05T09:00:05.000Z","repeat":"daily"},{"id":"b2","title":"Call Bob, 10:30","dateISO":"2024-01-05T09:00:00.000Z"}]''\<close>
  have s: "JSON_stringify jsonHost ?ts = ?text"
    unfolding jsonHost_def json_api.simps by code_simp
  have p: "JSON_parse jsonHost ?text = Inr (JArray (map taskJSON ?ts))"
    unfolding jsonHost_def json_api.simps by code_simp
  have n: "?text \<noteq> []" by (simp add: js_def)
  have sv: "saveTasks jsonHost ?ts emptyStorage =
      Inr (emptyStorage\<lparr>items := (items emptyStorage)(STORAGE_KEY \<mapsto> ?text)\<rparr>)"
    by (simp add: saveTasks_def setItem_def s emptyStorage_def length_js)
  from save_load_roundtrip[of jsonHost ?ts emptyStorage
      "emptyStorage\<lparr>items := (items emptyStorage)(STORAGE_KEY \<mapsto> ?text)\<rparr>"] sv s p n
  have "loadTasks jsonHost (emptyStorage\<lparr>items := (items emptyStorage)(STORAGE_KEY \<mapsto> ?text)\<rparr>) =
      Inr (map taskJSON ?ts)"
    by simp
  with sv show ?thesis by simp
qed

end
